theory Spec2Isabelle
  imports Main "HOL-Library.Word"
begin

section \<open>Kernel TLS offload: data model\<close>

type_synonym byte = "8 word"
type_synonym uint16 = "16 word"

text \<open>
  Go \<open>error\<close> values. The \<open>fmt.Errorf\<close> errors of the package carry the numbers they
  print (desired and actual length); \<open>Errno\<close> is a \<open>unix.Errno\<close>; \<open>OtherError\<close> stands
  for an error handed up by the \<open>net\<close> or \<open>os\<close> package.
\<close>

datatype error =
    WrongKeyLength nat nat
  | WrongIVLength nat nat
  | WrongSeqLength nat nat
  | WrongCryptoInfoSize nat nat
  | Errno nat
  | EOF
  | OtherError string
  | UnknownSizeReceived int
  | UnsupportedCmsgLevel int
  | UnsupportedCmsgType int
  | AlertPayloadTooShort
  | UnsupportedAlertType byte
  | UnsupportedRecordType byte

definition EAGAIN :: error where "EAGAIN = Errno 11"

text \<open>A call returns, panics (an index or slice out of range), or never returns
  because it is parked on a descriptor that does not become ready.\<close>

datatype 'a outcome = Returns 'a | Panics | Blocks

text \<open>
  The constants of the package that are declared outside the files under \<open>src/\<close>
  (protocol versions, record types, alert codes, cipher-suite identifiers) are
  parameters of the model.
\<close>

record tls_consts =
  VersionTLS12 :: uint16
  VersionTLS13 :: uint16
  recordTypeAlert :: byte
  recordTypeApplicationData :: byte
  alertCloseNotify :: byte
  TLS_RSA_WITH_AES_128_GCM_SHA256 :: uint16
  TLS_RSA_WITH_AES_256_GCM_SHA384 :: uint16
  TLS_ECDHE_ECDSA_WITH_AES_128_GCM_SHA256 :: uint16
  TLS_ECDHE_RSA_WITH_AES_128_GCM_SHA256 :: uint16
  TLS_ECDHE_ECDSA_WITH_AES_256_GCM_SHA384 :: uint16
  TLS_ECDHE_RSA_WITH_AES_256_GCM_SHA384 :: uint16
  TLS_ECDHE_RSA_WITH_CHACHA20_POLY1305_SHA256 :: uint16
  TLS_ECDHE_ECDSA_WITH_CHACHA20_POLY1305_SHA256 :: uint16
  TLS_AES_128_GCM_SHA256 :: uint16
  TLS_AES_256_GCM_SHA384 :: uint16
  TLS_CHACHA20_POLY1305_SHA256 :: uint16

text \<open>The values these constants have in Go's \<open>crypto/tls\<close>, which the package
  forks; they serve as a concrete instance.\<close>

definition go_consts :: tls_consts where
  "go_consts =
    \<lparr> VersionTLS12 = 0x0303, VersionTLS13 = 0x0304,
      recordTypeAlert = 21, recordTypeApplicationData = 23, alertCloseNotify = 0,
      TLS_RSA_WITH_AES_128_GCM_SHA256 = 0x009c,
      TLS_RSA_WITH_AES_256_GCM_SHA384 = 0x009d,
      TLS_ECDHE_ECDSA_WITH_AES_128_GCM_SHA256 = 0xc02b,
      TLS_ECDHE_RSA_WITH_AES_128_GCM_SHA256 = 0xc02f,
      TLS_ECDHE_ECDSA_WITH_AES_256_GCM_SHA384 = 0xc02c,
      TLS_ECDHE_RSA_WITH_AES_256_GCM_SHA384 = 0xc030,
      TLS_ECDHE_RSA_WITH_CHACHA20_POLY1305_SHA256 = 0xcca8,
      TLS_ECDHE_ECDSA_WITH_CHACHA20_POLY1305_SHA256 = 0xcca9,
      TLS_AES_128_GCM_SHA256 = 0x1301,
      TLS_AES_256_GCM_SHA384 = 0x1302,
      TLS_CHACHA20_POLY1305_SHA256 = 0x1303 \<rparr>"

subsection \<open>Constants of ktls\_linux.go and ktls\_cipher\_linux.go\<close>

definition TCP_ULP :: int where "TCP_ULP = 31"
definition SOL_TLS :: int where "SOL_TLS = 282"
definition SOL_TCP :: int where "SOL_TCP = 6"
definition TLS_TX :: int where "TLS_TX = 1"
definition TLS_RX :: int where "TLS_RX = 2"
definition TLS_TX_ZEROCOPY_RO :: int where "TLS_TX_ZEROCOPY_RO = 3"
definition TLS_RX_EXPECT_NO_PAD :: int where "TLS_RX_EXPECT_NO_PAD = 4"
definition TLS_SET_RECORD_TYPE :: int where "TLS_SET_RECORD_TYPE = 1"
definition TLS_GET_RECORD_TYPE :: int where "TLS_GET_RECORD_TYPE = 2"

definition kTLS_CIPHER_AES_GCM_128 :: uint16 where "kTLS_CIPHER_AES_GCM_128 = 51"
definition kTLS_CIPHER_AES_GCM_128_IV_SIZE :: nat where "kTLS_CIPHER_AES_GCM_128_IV_SIZE = 8"
definition kTLS_CIPHER_AES_GCM_128_KEY_SIZE :: nat where "kTLS_CIPHER_AES_GCM_128_KEY_SIZE = 16"
definition kTLS_CIPHER_AES_GCM_128_SALT_SIZE :: nat where "kTLS_CIPHER_AES_GCM_128_SALT_SIZE = 4"
definition kTLS_CIPHER_AES_GCM_128_REC_SEQ_SIZE :: nat where "kTLS_CIPHER_AES_GCM_128_REC_SEQ_SIZE = 8"

definition kTLS_CIPHER_AES_GCM_256 :: uint16 where "kTLS_CIPHER_AES_GCM_256 = 52"
definition kTLS_CIPHER_AES_GCM_256_IV_SIZE :: nat where "kTLS_CIPHER_AES_GCM_256_IV_SIZE = 8"
definition kTLS_CIPHER_AES_GCM_256_KEY_SIZE :: nat where "kTLS_CIPHER_AES_GCM_256_KEY_SIZE = 32"
definition kTLS_CIPHER_AES_GCM_256_SALT_SIZE :: nat where "kTLS_CIPHER_AES_GCM_256_SALT_SIZE = 4"
definition kTLS_CIPHER_AES_GCM_256_REC_SEQ_SIZE :: nat where "kTLS_CIPHER_AES_GCM_256_REC_SEQ_SIZE = 8"

definition kTLS_CIPHER_CHACHA20_POLY1305 :: uint16 where "kTLS_CIPHER_CHACHA20_POLY1305 = 54"
definition kTLS_CIPHER_CHACHA20_POLY1305_IV_SIZE :: nat where
  "kTLS_CIPHER_CHACHA20_POLY1305_IV_SIZE = 12"
definition kTLS_CIPHER_CHACHA20_POLY1305_KEY_SIZE :: nat where
  "kTLS_CIPHER_CHACHA20_POLY1305_KEY_SIZE = 32"
definition kTLS_CIPHER_CHACHA20_POLY1305_SALT_SIZE :: nat where
  "kTLS_CIPHER_CHACHA20_POLY1305_SALT_SIZE = 0"
definition kTLS_CIPHER_CHACHA20_POLY1305_REC_SEQ_SIZE :: nat where
  "kTLS_CIPHER_CHACHA20_POLY1305_REC_SEQ_SIZE = 8"

definition kTLSCryptoInfoSize_AES_GCM_128 :: nat where
  "kTLSCryptoInfoSize_AES_GCM_128 =
     2 + 2 + kTLS_CIPHER_AES_GCM_128_IV_SIZE + kTLS_CIPHER_AES_GCM_128_KEY_SIZE +
     kTLS_CIPHER_AES_GCM_128_SALT_SIZE + kTLS_CIPHER_AES_GCM_128_REC_SEQ_SIZE"

definition kTLSCryptoInfoSize_AES_GCM_256 :: nat where
  "kTLSCryptoInfoSize_AES_GCM_256 =
     2 + 2 + kTLS_CIPHER_AES_GCM_256_IV_SIZE + kTLS_CIPHER_AES_GCM_256_KEY_SIZE +
     kTLS_CIPHER_AES_GCM_256_SALT_SIZE + kTLS_CIPHER_AES_GCM_256_REC_SEQ_SIZE"

definition kTLSCryptoInfoSize_CHACHA20_POLY1305 :: nat where
  "kTLSCryptoInfoSize_CHACHA20_POLY1305 =
     2 + 2 + kTLS_CIPHER_CHACHA20_POLY1305_IV_SIZE + kTLS_CIPHER_CHACHA20_POLY1305_KEY_SIZE +
     kTLS_CIPHER_CHACHA20_POLY1305_SALT_SIZE + kTLS_CIPHER_CHACHA20_POLY1305_REC_SEQ_SIZE"

subsection \<open>The crypto-info structs and their memory image\<close>

text \<open>
  The three structs \<open>kTLSCryptoInfoAESGCM128\<close>, \<open>kTLSCryptoInfoAESGCM256\<close> and
  \<open>kTLSCryptoInfoCHACHA20POLY1305\<close> have the same fields and differ in the array
  sizes only; one record holds them, the arrays as byte lists of the declared length.
\<close>

record kTLSCryptoInfo =
  info_version :: uint16
  info_cipherType :: uint16
  info_iv :: "byte list"
  info_key :: "byte list"
  info_salt :: "byte list"
  info_recSeq :: "byte list"

text \<open>A zeroed \<open>[n]byte\<close> array, and Go's \<open>copy(dst[:], src)\<close>, which copies
  \<open>min(len(dst), len(src))\<close> bytes and leaves the rest of \<open>dst\<close> alone.\<close>

definition zero_array :: "nat \<Rightarrow> byte list" where
  "zero_array n = replicate n 0"

definition copy_bytes :: "byte list \<Rightarrow> byte list \<Rightarrow> byte list" where
  "copy_bytes dst src = take (length dst) src @ drop (length src) dst"

text \<open>The struct is handed to the kernel as its bytes in memory: the two \<open>uint16\<close>
  fields in the byte order of the machine, then the four arrays. No field needs an
  alignment above 2 and every offset is even, so the compiler inserts no padding.\<close>

datatype byte_order = LittleEndian | BigEndian

definition uint16_bytes :: "byte_order \<Rightarrow> uint16 \<Rightarrow> byte list" where
  "uint16_bytes bo w =
     (case bo of
        LittleEndian \<Rightarrow> [ucast w, ucast (drop_bit 8 w)]
      | BigEndian \<Rightarrow> [ucast (drop_bit 8 w), ucast w])"

definition cryptoInfo_bytes :: "byte_order \<Rightarrow> kTLSCryptoInfo \<Rightarrow> byte list" where
  "cryptoInfo_bytes bo ci =
     uint16_bytes bo (info_version ci) @ uint16_bytes bo (info_cipherType ci) @
     info_iv ci @ info_key ci @ info_salt ci @ info_recSeq ci"

subsection \<open>The socket\<close>

text \<open>
  A \<open>*net.TCPConn\<close> as the encoders see it: \<open>SyscallConn()\<close> may fail, \<open>Control\<close> may
  fail (then its closure is not run), and the kernel answers every \<open>setsockopt\<close>.
  Each function returns, beside its Go result, the socket calls it made, in order.
\<close>

datatype sockcall =
    SetsockoptString int int "byte list"
  | SetsockoptInt int int int

text \<open>
  What the kernel does at each \<open>recvmsg\<close> on the socket, one entry per call: it fails
  (\<open>-1\<close> and an errno), or it delivers a payload together with the level, type and data
  byte of the control message. \<open>RecvWaitFails\<close> is the poller reporting an error
  (deadline, closed descriptor) in place of readiness, which makes \<open>RawConn.Read\<close>
  return it without calling the closure again. When the list is exhausted nothing
  ever arrives and the reader stays parked.
\<close>

datatype recv_event =
    Recvmsg "byte list" int int byte
  | RecvmsgFails error
  | RecvWaitFails error

text \<open>The same for \<open>splice\<close> out of the socket: the bytes the kernel moves into the
  pipe (at most the length asked for), or a failure.\<close>

datatype splice_event =
    SpliceIn "byte list"
  | SpliceInFails error
  | SpliceWaitFails error

record TCPConn =
  SyscallConn_err :: "error option"
  Control_err :: "error option"
  setsockopt :: "sockcall \<Rightarrow> error option"
  recvmsg_events :: "recv_event list"
  splice_events :: "splice_event list"

text \<open>The ULP bind: \<open>setsockopt(fd, SOL_TCP, TCP_ULP, "tls")\<close>.\<close>

definition tls_string :: "byte list" where
  "tls_string = [0x74, 0x6c, 0x73]"

definition ulp_bind :: sockcall where
  "ulp_bind = SetsockoptString SOL_TCP TCP_ULP tls_string"

text \<open>Three sockets to run the functions on. On the first every call succeeds and
  nothing arrives. The second sits on a kernel without the TLS protocol: the ULP bind
  fails with \<open>ENOENT\<close> and every other option with \<open>ENOPROTOOPT\<close>. On the third the
  ULP bind alone fails.\<close>

definition quiet_socket :: TCPConn where
  "quiet_socket =
    \<lparr> SyscallConn_err = None, Control_err = None, setsockopt = (\<lambda>call. None),
      recvmsg_events = [], splice_events = [] \<rparr>"

definition no_ulp_socket :: TCPConn where
  "no_ulp_socket =
    quiet_socket \<lparr> setsockopt :=
      (\<lambda>call. if call = ulp_bind then Some (Errno 2) else Some (Errno 92)) \<rparr>"

definition bind_fails_socket :: TCPConn where
  "bind_fails_socket =
    quiet_socket \<lparr> setsockopt := (\<lambda>call. if call = ulp_bind then Some (Errno 2) else None) \<rparr>"

section \<open>Cipher wire encoders (ktls\_cipher\_linux.go)\<close>

subsection \<open>AES-128-GCM\<close>

text \<open>The length checks that open \<open>ktlsEnableAES128GCM\<close>; \<open>None\<close> when all pass.\<close>

definition checkLengthsAES128GCM ::
  "tls_consts \<Rightarrow> uint16 \<Rightarrow> byte list \<Rightarrow> byte list \<Rightarrow> byte list \<Rightarrow> error option" where
  "checkLengthsAES128GCM K version key iv seq =
    (if length key \<noteq> kTLS_CIPHER_AES_GCM_128_KEY_SIZE then
       Some (WrongKeyLength kTLS_CIPHER_AES_GCM_128_KEY_SIZE (length key))
     else if version = VersionTLS12 K then
       (if length iv \<noteq> kTLS_CIPHER_AES_GCM_128_SALT_SIZE then
          Some (WrongIVLength kTLS_CIPHER_AES_GCM_128_SALT_SIZE (length iv))
        else if length seq \<noteq> kTLS_CIPHER_AES_GCM_128_REC_SEQ_SIZE then
          Some (WrongSeqLength kTLS_CIPHER_AES_GCM_128_REC_SEQ_SIZE (length seq))
        else None)
     else
       (if length iv \<noteq> kTLS_CIPHER_AES_GCM_128_SALT_SIZE + kTLS_CIPHER_AES_GCM_128_IV_SIZE then
          Some (WrongIVLength
                  (kTLS_CIPHER_AES_GCM_128_SALT_SIZE + kTLS_CIPHER_AES_GCM_128_IV_SIZE) (length iv))
        else if length seq \<noteq> kTLS_CIPHER_AES_GCM_128_REC_SEQ_SIZE then
          Some (WrongSeqLength kTLS_CIPHER_AES_GCM_128_REC_SEQ_SIZE (length seq))
        else None))"

text \<open>The struct literal and the four \<open>copy\<close> calls.\<close>

definition cryptoInfoAESGCM128 ::
  "uint16 \<Rightarrow> byte list \<Rightarrow> byte list \<Rightarrow> byte list \<Rightarrow> kTLSCryptoInfo" where
  "cryptoInfoAESGCM128 version key iv seq =
     \<lparr> info_version = version,
       info_cipherType = kTLS_CIPHER_AES_GCM_128,
       info_iv = copy_bytes (zero_array kTLS_CIPHER_AES_GCM_128_IV_SIZE)
                   (drop kTLS_CIPHER_AES_GCM_128_SALT_SIZE iv),
       info_key = copy_bytes (zero_array kTLS_CIPHER_AES_GCM_128_KEY_SIZE) key,
       info_salt = copy_bytes (zero_array kTLS_CIPHER_AES_GCM_128_SALT_SIZE)
                     (take kTLS_CIPHER_AES_GCM_128_SALT_SIZE iv),
       info_recSeq = copy_bytes (zero_array kTLS_CIPHER_AES_GCM_128_REC_SEQ_SIZE) seq \<rparr>"

text \<open>
  The closure given to \<open>Control\<close>. After a failed ULP bind it logs and goes on: the
  cipher \<open>setsockopt\<close> is issued all the same and its result overwrites \<open>err0\<close>.
\<close>

definition controlAES128GCM ::
  "TCPConn \<Rightarrow> bool \<Rightarrow> sockcall \<Rightarrow> error option \<times> sockcall list" where
  "controlAES128GCM c skip cfg =
    (let (err0, calls) = (if \<not> skip then (setsockopt c ulp_bind, [ulp_bind]) else (None, []))
     in (setsockopt c cfg, calls @ [cfg]))"

definition ktlsEnableAES128GCM ::
  "tls_consts \<Rightarrow> byte_order \<Rightarrow> TCPConn \<Rightarrow> uint16 \<Rightarrow> int \<Rightarrow> bool \<Rightarrow>
   byte list \<Rightarrow> byte list \<Rightarrow> byte list \<Rightarrow> error option \<times> sockcall list" where
  "ktlsEnableAES128GCM K bo c version opt skip key iv seq =
    (case checkLengthsAES128GCM K version key iv seq of
       Some err \<Rightarrow> (Some err, [])
     | None \<Rightarrow>
        (let cryptoInfo = cryptoInfo_bytes bo (cryptoInfoAESGCM128 version key iv seq) in
         if length cryptoInfo \<noteq> kTLSCryptoInfoSize_AES_GCM_128 then
           (Some (WrongCryptoInfoSize kTLSCryptoInfoSize_AES_GCM_128 (length cryptoInfo)), [])
         else
           case SyscallConn_err c of
             Some err \<Rightarrow> (Some err, [])
           | None \<Rightarrow>
              (case Control_err c of
                 Some err \<Rightarrow> (Some err, [])
               | None \<Rightarrow>
                   controlAES128GCM c skip
                     (SetsockoptString SOL_TLS opt
                        (take kTLSCryptoInfoSize_AES_GCM_128 cryptoInfo)))))"

subsection \<open>AES-256-GCM\<close>

definition checkLengthsAES256GCM ::
  "tls_consts \<Rightarrow> uint16 \<Rightarrow> byte list \<Rightarrow> byte list \<Rightarrow> byte list \<Rightarrow> error option" where
  "checkLengthsAES256GCM K version key iv seq =
    (if length key \<noteq> kTLS_CIPHER_AES_GCM_256_KEY_SIZE then
       Some (WrongKeyLength kTLS_CIPHER_AES_GCM_256_KEY_SIZE (length key))
     else if version = VersionTLS12 K then
       (if length iv \<noteq> kTLS_CIPHER_AES_GCM_256_SALT_SIZE then
          Some (WrongIVLength kTLS_CIPHER_AES_GCM_256_SALT_SIZE (length iv))
        else if length seq \<noteq> kTLS_CIPHER_AES_GCM_256_REC_SEQ_SIZE then
          Some (WrongSeqLength kTLS_CIPHER_AES_GCM_256_REC_SEQ_SIZE (length seq))
        else None)
     else
       (if length iv \<noteq> kTLS_CIPHER_AES_GCM_256_SALT_SIZE + kTLS_CIPHER_AES_GCM_256_IV_SIZE then
          Some (WrongIVLength
                  (kTLS_CIPHER_AES_GCM_256_SALT_SIZE + kTLS_CIPHER_AES_GCM_256_IV_SIZE) (length iv))
        else if length seq \<noteq> kTLS_CIPHER_AES_GCM_256_REC_SEQ_SIZE then
          Some (WrongSeqLength kTLS_CIPHER_AES_GCM_256_REC_SEQ_SIZE (length seq))
        else None))"

definition cryptoInfoAESGCM256 ::
  "uint16 \<Rightarrow> byte list \<Rightarrow> byte list \<Rightarrow> byte list \<Rightarrow> kTLSCryptoInfo" where
  "cryptoInfoAESGCM256 version key iv seq =
     \<lparr> info_version = version,
       info_cipherType = kTLS_CIPHER_AES_GCM_256,
       info_iv = copy_bytes (zero_array kTLS_CIPHER_AES_GCM_256_IV_SIZE)
                   (drop kTLS_CIPHER_AES_GCM_256_SALT_SIZE iv),
       info_key = copy_bytes (zero_array kTLS_CIPHER_AES_GCM_256_KEY_SIZE) key,
       info_salt = copy_bytes (zero_array kTLS_CIPHER_AES_GCM_256_SALT_SIZE)
                     (take kTLS_CIPHER_AES_GCM_256_SALT_SIZE iv),
       info_recSeq = copy_bytes (zero_array kTLS_CIPHER_AES_GCM_256_REC_SEQ_SIZE) seq \<rparr>"

text \<open>
  The closure given to \<open>Control\<close> by \<open>ktlsEnableAES256GCM\<close> and by
  \<open>ktlsEnableCHACHA20POLY1305\<close> (the two are the same up to the logging): a failed
  ULP bind returns at once, with \<open>err0\<close> the bind's error.
\<close>

definition controlBindThenConfigure ::
  "TCPConn \<Rightarrow> bool \<Rightarrow> sockcall \<Rightarrow> error option \<times> sockcall list" where
  "controlBindThenConfigure c skip cfg =
    (let (err0, calls) = (if \<not> skip then (setsockopt c ulp_bind, [ulp_bind]) else (None, []))
     in if \<not> skip \<and> err0 \<noteq> None then (err0, calls)
        else (setsockopt c cfg, calls @ [cfg]))"

definition ktlsEnableAES256GCM ::
  "tls_consts \<Rightarrow> byte_order \<Rightarrow> TCPConn \<Rightarrow> uint16 \<Rightarrow> int \<Rightarrow> bool \<Rightarrow>
   byte list \<Rightarrow> byte list \<Rightarrow> byte list \<Rightarrow> error option \<times> sockcall list" where
  "ktlsEnableAES256GCM K bo c version opt skip key iv seq =
    (case checkLengthsAES256GCM K version key iv seq of
       Some err \<Rightarrow> (Some err, [])
     | None \<Rightarrow>
        (let cryptoInfo = cryptoInfo_bytes bo (cryptoInfoAESGCM256 version key iv seq) in
         if length cryptoInfo \<noteq> kTLSCryptoInfoSize_AES_GCM_256 then
           (Some (WrongCryptoInfoSize kTLSCryptoInfoSize_AES_GCM_256 (length cryptoInfo)), [])
         else
           case SyscallConn_err c of
             Some err \<Rightarrow> (Some err, [])
           | None \<Rightarrow>
              (case Control_err c of
                 Some err \<Rightarrow> (Some err, [])
               | None \<Rightarrow>
                   controlBindThenConfigure c skip
                     (SetsockoptString SOL_TLS opt
                        (take kTLSCryptoInfoSize_AES_GCM_256 cryptoInfo)))))"

subsection \<open>ChaCha20-Poly1305\<close>

text \<open>One IV length for every protocol version: \<open>version\<close> is not consulted.\<close>

definition checkLengthsCHACHA20POLY1305 ::
  "byte list \<Rightarrow> byte list \<Rightarrow> byte list \<Rightarrow> error option" where
  "checkLengthsCHACHA20POLY1305 key iv seq =
    (if length key \<noteq> kTLS_CIPHER_CHACHA20_POLY1305_KEY_SIZE then
       Some (WrongKeyLength kTLS_CIPHER_CHACHA20_POLY1305_KEY_SIZE (length key))
     else if length iv \<noteq> kTLS_CIPHER_CHACHA20_POLY1305_IV_SIZE then
       Some (WrongIVLength kTLS_CIPHER_CHACHA20_POLY1305_IV_SIZE (length iv))
     else if length seq \<noteq> kTLS_CIPHER_CHACHA20_POLY1305_REC_SEQ_SIZE then
       Some (WrongSeqLength kTLS_CIPHER_CHACHA20_POLY1305_REC_SEQ_SIZE (length seq))
     else None)"

definition cryptoInfoCHACHA20POLY1305 ::
  "uint16 \<Rightarrow> byte list \<Rightarrow> byte list \<Rightarrow> byte list \<Rightarrow> kTLSCryptoInfo" where
  "cryptoInfoCHACHA20POLY1305 version key iv seq =
     \<lparr> info_version = version,
       info_cipherType = kTLS_CIPHER_CHACHA20_POLY1305,
       info_iv = copy_bytes (zero_array kTLS_CIPHER_CHACHA20_POLY1305_IV_SIZE) iv,
       info_key = copy_bytes (zero_array kTLS_CIPHER_CHACHA20_POLY1305_KEY_SIZE) key,
       info_salt = zero_array kTLS_CIPHER_CHACHA20_POLY1305_SALT_SIZE,
       info_recSeq = copy_bytes (zero_array kTLS_CIPHER_CHACHA20_POLY1305_REC_SEQ_SIZE) seq \<rparr>"

definition ktlsEnableCHACHA20POLY1305 ::
  "byte_order \<Rightarrow> TCPConn \<Rightarrow> uint16 \<Rightarrow> int \<Rightarrow> bool \<Rightarrow>
   byte list \<Rightarrow> byte list \<Rightarrow> byte list \<Rightarrow> error option \<times> sockcall list" where
  "ktlsEnableCHACHA20POLY1305 bo c version opt skip key iv seq =
    (case checkLengthsCHACHA20POLY1305 key iv seq of
       Some err \<Rightarrow> (Some err, [])
     | None \<Rightarrow>
        (let cryptoInfo = cryptoInfo_bytes bo (cryptoInfoCHACHA20POLY1305 version key iv seq) in
         if length cryptoInfo \<noteq> kTLSCryptoInfoSize_CHACHA20_POLY1305 then
           (Some (WrongCryptoInfoSize kTLSCryptoInfoSize_CHACHA20_POLY1305 (length cryptoInfo)),
            [])
         else
           case SyscallConn_err c of
             Some err \<Rightarrow> (Some err, [])
           | None \<Rightarrow>
              (case Control_err c of
                 Some err \<Rightarrow> (Some err, [])
               | None \<Rightarrow>
                   controlBindThenConfigure c skip
                     (SetsockoptString SOL_TLS opt
                        (take kTLSCryptoInfoSize_CHACHA20_POLY1305 cryptoInfo)))))"

subsection \<open>The three families side by side\<close>

text \<open>
  The statements about "every cipher family" range over this type: the constants of
  each family as the \<open>const\<close> block gives them, and the family's length checks,
  struct and enable function.
\<close>

datatype cipher_family = AES_GCM_128 | AES_GCM_256 | CHACHA20_POLY1305

fun IV_SIZE :: "cipher_family \<Rightarrow> nat" where
  "IV_SIZE AES_GCM_128 = kTLS_CIPHER_AES_GCM_128_IV_SIZE"
| "IV_SIZE AES_GCM_256 = kTLS_CIPHER_AES_GCM_256_IV_SIZE"
| "IV_SIZE CHACHA20_POLY1305 = kTLS_CIPHER_CHACHA20_POLY1305_IV_SIZE"

fun KEY_SIZE :: "cipher_family \<Rightarrow> nat" where
  "KEY_SIZE AES_GCM_128 = kTLS_CIPHER_AES_GCM_128_KEY_SIZE"
| "KEY_SIZE AES_GCM_256 = kTLS_CIPHER_AES_GCM_256_KEY_SIZE"
| "KEY_SIZE CHACHA20_POLY1305 = kTLS_CIPHER_CHACHA20_POLY1305_KEY_SIZE"

fun SALT_SIZE :: "cipher_family \<Rightarrow> nat" where
  "SALT_SIZE AES_GCM_128 = kTLS_CIPHER_AES_GCM_128_SALT_SIZE"
| "SALT_SIZE AES_GCM_256 = kTLS_CIPHER_AES_GCM_256_SALT_SIZE"
| "SALT_SIZE CHACHA20_POLY1305 = kTLS_CIPHER_CHACHA20_POLY1305_SALT_SIZE"

fun REC_SEQ_SIZE :: "cipher_family \<Rightarrow> nat" where
  "REC_SEQ_SIZE AES_GCM_128 = kTLS_CIPHER_AES_GCM_128_REC_SEQ_SIZE"
| "REC_SEQ_SIZE AES_GCM_256 = kTLS_CIPHER_AES_GCM_256_REC_SEQ_SIZE"
| "REC_SEQ_SIZE CHACHA20_POLY1305 = kTLS_CIPHER_CHACHA20_POLY1305_REC_SEQ_SIZE"

definition checkLengths ::
  "cipher_family \<Rightarrow> tls_consts \<Rightarrow> uint16 \<Rightarrow> byte list \<Rightarrow> byte list \<Rightarrow> byte list \<Rightarrow>
   error option" where
  "checkLengths fam K version key iv seq =
    (case fam of
       AES_GCM_128 \<Rightarrow> checkLengthsAES128GCM K version key iv seq
     | AES_GCM_256 \<Rightarrow> checkLengthsAES256GCM K version key iv seq
     | CHACHA20_POLY1305 \<Rightarrow> checkLengthsCHACHA20POLY1305 key iv seq)"

definition cryptoInfo ::
  "cipher_family \<Rightarrow> uint16 \<Rightarrow> byte list \<Rightarrow> byte list \<Rightarrow> byte list \<Rightarrow> kTLSCryptoInfo" where
  "cryptoInfo fam version key iv seq =
    (case fam of
       AES_GCM_128 \<Rightarrow> cryptoInfoAESGCM128 version key iv seq
     | AES_GCM_256 \<Rightarrow> cryptoInfoAESGCM256 version key iv seq
     | CHACHA20_POLY1305 \<Rightarrow> cryptoInfoCHACHA20POLY1305 version key iv seq)"

definition ktlsEnable ::
  "cipher_family \<Rightarrow> tls_consts \<Rightarrow> byte_order \<Rightarrow> TCPConn \<Rightarrow> uint16 \<Rightarrow> int \<Rightarrow> bool \<Rightarrow>
   byte list \<Rightarrow> byte list \<Rightarrow> byte list \<Rightarrow> error option \<times> sockcall list" where
  "ktlsEnable fam K bo c version opt skip key iv seq =
    (case fam of
       AES_GCM_128 \<Rightarrow> ktlsEnableAES128GCM K bo c version opt skip key iv seq
     | AES_GCM_256 \<Rightarrow> ktlsEnableAES256GCM K bo c version opt skip key iv seq
     | CHACHA20_POLY1305 \<Rightarrow> ktlsEnableCHACHA20POLY1305 bo c version opt skip key iv seq)"

text \<open>
  The IV length a family's profile requires at a protocol version, in the words of the
  specification: salt size before 1.3 and salt size plus IV size at 1.3 for the two
  AES families; for ChaCha20-Poly1305, whose salt is empty, the one length of its
  single check.
\<close>

fun profile_iv_length :: "tls_consts \<Rightarrow> cipher_family \<Rightarrow> uint16 \<Rightarrow> nat" where
  "profile_iv_length K CHACHA20_POLY1305 version = IV_SIZE CHACHA20_POLY1305"
| "profile_iv_length K fam version =
     (if version = VersionTLS12 K then SALT_SIZE fam else SALT_SIZE fam + IV_SIZE fam)"

subsection \<open>The two best-effort options\<close>

record ktls_support =
  kTLSSupport :: bool
  kTLSSupportTX :: bool
  kTLSSupportRX :: bool
  kTLSSupportAESGCM128 :: bool
  kTLSSupportAESGCM256 :: bool
  kTLSSupportCHACHA20POLY1305 :: bool
  kTLSSupportTLS13TX :: bool
  kTLSSupportTLS13RX :: bool
  kTLSSupportZEROCOPY :: bool
  kTLSSupportNOPAD :: bool

definition setsockoptIntOption :: "TCPConn \<Rightarrow> int \<Rightarrow> error option \<times> sockcall list" where
  "setsockoptIntOption c opt =
    (case SyscallConn_err c of
       Some err \<Rightarrow> (Some err, [])
     | None \<Rightarrow>
        (case Control_err c of
           Some err \<Rightarrow> (Some err, [])
         | None \<Rightarrow>
             (setsockopt c (SetsockoptInt SOL_TLS opt 1), [SetsockoptInt SOL_TLS opt 1])))"

definition ktlsEnableTxZerocopySendfile ::
  "ktls_support \<Rightarrow> TCPConn \<Rightarrow> error option \<times> sockcall list" where
  "ktlsEnableTxZerocopySendfile G c =
    (if \<not> kTLSSupportZEROCOPY G then (None, [])
     else setsockoptIntOption c TLS_TX_ZEROCOPY_RO)"

definition ktlsEnableRxExpectNoPad ::
  "ktls_support \<Rightarrow> TCPConn \<Rightarrow> error option \<times> sockcall list" where
  "ktlsEnableRxExpectNoPad G c =
    (if \<not> kTLSSupportNOPAD G then (None, [])
     else setsockoptIntOption c TLS_RX_EXPECT_NO_PAD)"

section \<open>Offload activation\<close>

text \<open>
  What the package uses of a \<open>*Conn\<close>: whether \<open>c.conn\<close> is a \<open>*net.TCPConn\<close>
  (and then which), the two record sequence numbers \<open>c.out.seq\<close> and \<open>c.in.seq\<close>,
  and what the successive calls of \<open>c.Read\<close> return: the bytes stored into the buffer
  (at most its length) and the error.
\<close>

datatype read_event = Read "byte list" "error option"

record Conn =
  conn :: "TCPConn option"
  out_seq :: "byte list"
  in_seq :: "byte list"
  Read_events :: "read_event list"

text \<open>
  What an activation leaves behind: the error it returns, the socket calls it made, and
  whether it stored \<open>kTLSCipher{}\<close> through \<open>clientCipher\<close> and \<open>serverCipher\<close>.
\<close>

record activation =
  returned :: "error option"
  calls :: "sockcall list"
  clientCipher :: bool
  serverCipher :: bool

definition no_activation :: activation where
  "no_activation = \<lparr> returned = None, calls = [], clientCipher = False, serverCipher = False \<rparr>"

type_synonym enableFunc =
  "TCPConn \<Rightarrow> uint16 \<Rightarrow> int \<Rightarrow> bool \<Rightarrow> byte list \<Rightarrow> byte list \<Rightarrow> byte list \<Rightarrow>
   error option \<times> sockcall list"

text \<open>The TX half and the RX half of \<open>ktlsEnableAES\<close>; \<open>ulpEnabled\<close> is the local
  variable of that name.\<close>

definition enableAES_TX ::
  "ktls_support \<Rightarrow> Conn \<Rightarrow> uint16 \<Rightarrow> enableFunc \<Rightarrow> nat \<Rightarrow> byte list \<Rightarrow> byte list \<Rightarrow>
   activation \<times> bool" where
  "enableAES_TX G c version enableFunc keyLen outKey outIV =
    (if length outKey = keyLen then
       (case conn c of
          Some tcpConn \<Rightarrow>
            (case enableFunc tcpConn version TLS_TX False outKey outIV (out_seq c) of
               (Some err, cs) \<Rightarrow> (no_activation \<lparr> returned := Some err, calls := cs \<rparr>, False)
             | (None, cs) \<Rightarrow>
                 (no_activation \<lparr> calls := cs @ snd (ktlsEnableTxZerocopySendfile G tcpConn),
                                  clientCipher := True \<rparr>, True))
        | None \<Rightarrow> (no_activation, False))
     else (no_activation, False))"

definition enableAES_RX ::
  "ktls_support \<Rightarrow> tls_consts \<Rightarrow> Conn \<Rightarrow> uint16 \<Rightarrow> enableFunc \<Rightarrow> nat \<Rightarrow>
   byte list \<Rightarrow> byte list \<Rightarrow> bool \<Rightarrow> activation \<Rightarrow> activation" where
  "enableAES_RX G K c version enableFunc keyLen inKey inIV ulpEnabled a =
    (if length inKey = keyLen then
       (case conn c of
          Some tcpConn \<Rightarrow>
            (case enableFunc tcpConn version TLS_RX ulpEnabled inKey inIV (in_seq c) of
               (Some err, cs) \<Rightarrow> a \<lparr> returned := Some err, calls := calls a @ cs \<rparr>
             | (None, cs) \<Rightarrow>
                 a \<lparr> calls := calls a @ cs @
                        (if version = VersionTLS13 K then snd (ktlsEnableRxExpectNoPad G tcpConn)
                         else []),
                     serverCipher := True \<rparr>)
        | None \<Rightarrow> a)
     else a)"

definition ktlsEnableAES ::
  "ktls_support \<Rightarrow> tls_consts \<Rightarrow> Conn \<Rightarrow> uint16 \<Rightarrow> enableFunc \<Rightarrow> nat \<Rightarrow>
   byte list \<Rightarrow> byte list \<Rightarrow> byte list \<Rightarrow> byte list \<Rightarrow> activation" where
  "ktlsEnableAES G K c version enableFunc keyLen inKey outKey inIV outIV =
    (if \<not> kTLSSupportTX G then no_activation
     else
       let (a, ulpEnabled) = enableAES_TX G c version enableFunc keyLen outKey outIV in
       if returned a \<noteq> None then a
       else if \<not> kTLSSupportRX G \<or> (version = VersionTLS13 K \<and> \<not> kTLSSupportTLS13RX G) then a
       else enableAES_RX G K c version enableFunc keyLen inKey inIV ulpEnabled a)"

text \<open>\<open>ktlsEnableCHACHA20\<close> is the same sequence without the key-length guards, on
  \<open>ktlsEnableCHACHA20POLY1305\<close>.\<close>

definition enableCHACHA20_TX ::
  "ktls_support \<Rightarrow> byte_order \<Rightarrow> Conn \<Rightarrow> uint16 \<Rightarrow> byte list \<Rightarrow> byte list \<Rightarrow>
   activation \<times> bool" where
  "enableCHACHA20_TX G bo c version outKey outIV =
    (case conn c of
       Some tcpConn \<Rightarrow>
         (case ktlsEnableCHACHA20POLY1305 bo tcpConn version TLS_TX False outKey outIV (out_seq c) of
            (Some err, cs) \<Rightarrow> (no_activation \<lparr> returned := Some err, calls := cs \<rparr>, False)
          | (None, cs) \<Rightarrow>
              (no_activation \<lparr> calls := cs @ snd (ktlsEnableTxZerocopySendfile G tcpConn),
                               clientCipher := True \<rparr>, True))
     | None \<Rightarrow> (no_activation, False))"

definition enableCHACHA20_RX ::
  "ktls_support \<Rightarrow> tls_consts \<Rightarrow> byte_order \<Rightarrow> Conn \<Rightarrow> uint16 \<Rightarrow>
   byte list \<Rightarrow> byte list \<Rightarrow> bool \<Rightarrow> activation \<Rightarrow> activation" where
  "enableCHACHA20_RX G K bo c version inKey inIV ulpEnabled a =
    (case conn c of
       Some tcpConn \<Rightarrow>
         (case ktlsEnableCHACHA20POLY1305 bo tcpConn version TLS_RX ulpEnabled inKey inIV (in_seq c) of
            (Some err, cs) \<Rightarrow> a \<lparr> returned := Some err, calls := calls a @ cs \<rparr>
          | (None, cs) \<Rightarrow>
              a \<lparr> calls := calls a @ cs @
                     (if version = VersionTLS13 K then snd (ktlsEnableRxExpectNoPad G tcpConn)
                      else []),
                  serverCipher := True \<rparr>)
     | None \<Rightarrow> a)"

definition ktlsEnableCHACHA20 ::
  "ktls_support \<Rightarrow> tls_consts \<Rightarrow> byte_order \<Rightarrow> Conn \<Rightarrow> uint16 \<Rightarrow>
   byte list \<Rightarrow> byte list \<Rightarrow> byte list \<Rightarrow> byte list \<Rightarrow> activation" where
  "ktlsEnableCHACHA20 G K bo c version inKey outKey inIV outIV =
    (if \<not> kTLSSupportTX G then no_activation
     else
       let (a, ulpEnabled) = enableCHACHA20_TX G bo c version outKey outIV in
       if returned a \<noteq> None then a
       else if \<not> kTLSSupportRX G \<or> (version = VersionTLS13 K \<and> \<not> kTLSSupportTLS13RX G) then a
       else enableCHACHA20_RX G K bo c version inKey inIV ulpEnabled a)"

text \<open>
  The \<open>switch\<close> of \<open>enableKernelTLS\<close>: its case labels, in the order of the source, and
  the case each selects. An identifier under no label falls through to \<open>return nil\<close>.
\<close>

datatype suite_case =
    AES_128_GCM_TLS12 | AES_256_GCM_TLS12 | CHACHA20_POLY1305_TLS12
  | AES_128_GCM_TLS13 | AES_256_GCM_TLS13 | CHACHA20_POLY1305_TLS13

definition switch_case :: "tls_consts \<Rightarrow> uint16 \<Rightarrow> suite_case option" where
  "switch_case K cipherSuiteID =
    (if cipherSuiteID = TLS_ECDHE_RSA_WITH_AES_128_GCM_SHA256 K \<or>
        cipherSuiteID = TLS_ECDHE_ECDSA_WITH_AES_128_GCM_SHA256 K \<or>
        cipherSuiteID = TLS_RSA_WITH_AES_128_GCM_SHA256 K then Some AES_128_GCM_TLS12
     else if cipherSuiteID = TLS_ECDHE_RSA_WITH_AES_256_GCM_SHA384 K \<or>
        cipherSuiteID = TLS_ECDHE_ECDSA_WITH_AES_256_GCM_SHA384 K \<or>
        cipherSuiteID = TLS_RSA_WITH_AES_256_GCM_SHA384 K then Some AES_256_GCM_TLS12
     else if cipherSuiteID = TLS_ECDHE_RSA_WITH_CHACHA20_POLY1305_SHA256 K \<or>
        cipherSuiteID = TLS_ECDHE_ECDSA_WITH_CHACHA20_POLY1305_SHA256 K
     then Some CHACHA20_POLY1305_TLS12
     else if cipherSuiteID = TLS_AES_128_GCM_SHA256 K then Some AES_128_GCM_TLS13
     else if cipherSuiteID = TLS_AES_256_GCM_SHA384 K then Some AES_256_GCM_TLS13
     else if cipherSuiteID = TLS_CHACHA20_POLY1305_SHA256 K then Some CHACHA20_POLY1305_TLS13
     else None)"

definition case_labels :: "tls_consts \<Rightarrow> uint16 list" where
  "case_labels K =
    [TLS_ECDHE_RSA_WITH_AES_128_GCM_SHA256 K, TLS_ECDHE_ECDSA_WITH_AES_128_GCM_SHA256 K,
     TLS_RSA_WITH_AES_128_GCM_SHA256 K,
     TLS_ECDHE_RSA_WITH_AES_256_GCM_SHA384 K, TLS_ECDHE_ECDSA_WITH_AES_256_GCM_SHA384 K,
     TLS_RSA_WITH_AES_256_GCM_SHA384 K,
     TLS_ECDHE_RSA_WITH_CHACHA20_POLY1305_SHA256 K,
     TLS_ECDHE_ECDSA_WITH_CHACHA20_POLY1305_SHA256 K,
     TLS_AES_128_GCM_SHA256 K, TLS_AES_256_GCM_SHA384 K, TLS_CHACHA20_POLY1305_SHA256 K]"

definition enableKernelTLS ::
  "ktls_support \<Rightarrow> tls_consts \<Rightarrow> byte_order \<Rightarrow> Conn \<Rightarrow> uint16 \<Rightarrow>
   byte list \<Rightarrow> byte list \<Rightarrow> byte list \<Rightarrow> byte list \<Rightarrow> activation" where
  "enableKernelTLS G K bo c cipherSuiteID inKey outKey inIV outIV =
    (if \<not> kTLSSupport G then no_activation
     else
       case switch_case K cipherSuiteID of
         Some AES_128_GCM_TLS12 \<Rightarrow>
           if \<not> kTLSSupportAESGCM128 G then no_activation
           else ktlsEnableAES G K c (VersionTLS12 K) (ktlsEnableAES128GCM K bo) 16
                  inKey outKey inIV outIV
       | Some AES_256_GCM_TLS12 \<Rightarrow>
           if \<not> kTLSSupportAESGCM256 G then no_activation
           else ktlsEnableAES G K c (VersionTLS12 K) (ktlsEnableAES256GCM K bo) 32
                  inKey outKey inIV outIV
       | Some CHACHA20_POLY1305_TLS12 \<Rightarrow>
           if \<not> kTLSSupportCHACHA20POLY1305 G then no_activation
           else ktlsEnableCHACHA20 G K bo c (VersionTLS12 K) inKey outKey inIV outIV
       | Some AES_128_GCM_TLS13 \<Rightarrow>
           if \<not> kTLSSupportAESGCM128 G \<or> \<not> kTLSSupportTLS13TX G then no_activation
           else ktlsEnableAES G K c (VersionTLS13 K) (ktlsEnableAES128GCM K bo) 16
                  inKey outKey inIV outIV
       | Some AES_256_GCM_TLS13 \<Rightarrow>
           if \<not> kTLSSupportAESGCM256 G \<or> \<not> kTLSSupportTLS13TX G then no_activation
           else ktlsEnableAES G K c (VersionTLS13 K) (ktlsEnableAES256GCM K bo) 32
                  inKey outKey inIV outIV
       | Some CHACHA20_POLY1305_TLS13 \<Rightarrow>
           if \<not> kTLSSupportCHACHA20POLY1305 G \<or> \<not> kTLSSupportTLS13TX G then no_activation
           else ktlsEnableCHACHA20 G K bo c (VersionTLS13 K) inKey outKey inIV outIV
       | None \<Rightarrow> no_activation)"

section \<open>Capability probe (\<open>init\<close> of ktls\_linux.go)\<close>

text \<open>
  The probe asks the system three things: whether \<open>/sys/module/tls\<close> exists, the policy
  switch \<open>kTLSEnabled\<close>, and the kernel release, out of which it cuts \<open>major\<close> and
  \<open>minor\<close>. \<open>release_probe\<close> is what that last step comes to: \<open>uname\<close> fails, a
  slice of the release string at a missing dot panics, \<open>strconv.Atoi\<close> fails, or the
  two numbers are there.
\<close>

datatype release_probe = UnameFails | SlicePanics | AtoiFails | Release int int

text \<open>
  The cutting itself. The release is the \<open>Release\<close> array of \<open>uname\<close> up to its first
  zero byte (\<open>None\<close>: \<open>uname\<close> failed). \<open>Index\<close> is \<open>strings.Index\<close> for a one-byte
  substring and \<open>TrimLeft\<close> is \<open>strings.TrimLeft\<close>, which drops every leading byte that
  occurs in the cutset (the two agree with Go on ASCII text, which a release string
  is). Both slices are taken before either number is parsed.

  \<open>Atoi\<close> is \<open>strconv.Atoi\<close>: an optional sign, then one or more decimal digits and
  nothing else, the value within the range of \<open>int\<close> (64 bits here); anything else is
  an error. \<open>Utsname_Release\<close> is the 65-byte field as the kernel fills it: the release
  text, then zero bytes.
\<close>

definition isDigit :: "char \<Rightarrow> bool" where
  "isDigit c = (let d = (of_char c :: nat) in 48 \<le> d \<and> d \<le> 57)"

definition Atoi :: "string \<Rightarrow> int option" where
  "Atoi s =
    (let neg = (take 1 s = ''-'');
         digits = (if take 1 s = ''-'' \<or> take 1 s = ''+'' then drop 1 s else s);
         n = foldl (\<lambda>acc c. acc * 10 + (int (of_char c) - 48)) 0 digits;
         v = (if neg then - n else n)
     in if digits = [] then None
        else if list_all isDigit digits
          then (if - (2 ^ 63) \<le> v \<and> v < 2 ^ 63 then Some v else None)
          else None)"

definition Utsname_Release :: "string \<Rightarrow> string" where
  "Utsname_Release release = release @ replicate (65 - length release) (CHR 0x00)"

definition Index :: "string \<Rightarrow> char \<Rightarrow> nat option" where
  "Index s c = (if c \<in> set s then Some (length (takeWhile (\<lambda>x. x \<noteq> c) s)) else None)"

definition TrimLeft :: "string \<Rightarrow> string \<Rightarrow> string" where
  "TrimLeft s cutset = dropWhile (\<lambda>x. x \<in> set cutset) s"

definition probe_release :: "string option \<Rightarrow> release_probe" where
  "probe_release uname_Release =
    (case uname_Release of
       None \<Rightarrow> UnameFails
     | Some buf \<Rightarrow>
        (let release = takeWhile (\<lambda>x. x \<noteq> CHR 0x00) buf in
         case Index release CHR ''.'' of
           None \<Rightarrow> SlicePanics
         | Some i \<Rightarrow>
            (let majorRelease = take i release;
                 trimmed = TrimLeft release (majorRelease @ ''.'')
             in case Index trimmed CHR ''.'' of
                  None \<Rightarrow> SlicePanics
                | Some j \<Rightarrow>
                   (let minorRelease = take j trimmed in
                    case Atoi majorRelease of
                      None \<Rightarrow> AtoiFails
                    | Some major \<Rightarrow>
                       (case Atoi minorRelease of
                          None \<Rightarrow> AtoiFails
                        | Some minor \<Rightarrow> Release major minor)))))"

definition no_support :: ktls_support where
  "no_support =
    \<lparr> kTLSSupport = False, kTLSSupportTX = False, kTLSSupportRX = False,
      kTLSSupportAESGCM128 = False, kTLSSupportAESGCM256 = False,
      kTLSSupportCHACHA20POLY1305 = False, kTLSSupportTLS13TX = False,
      kTLSSupportTLS13RX = False, kTLSSupportZEROCOPY = False, kTLSSupportNOPAD = False \<rparr>"

text \<open>The six \<open>if\<close> statements on \<open>major\<close> and \<open>minor\<close>, in order.\<close>

definition version_thresholds :: "int \<Rightarrow> int \<Rightarrow> ktls_support \<Rightarrow> ktls_support" where
  "version_thresholds major minor G0 =
    (let G1 = (if (major = 4 \<and> minor \<ge> 13) \<or> major > 4
               then G0 \<lparr> kTLSSupportTX := True, kTLSSupportAESGCM128 := True \<rparr> else G0);
         G2 = (if (major = 4 \<and> minor \<ge> 17) \<or> major > 4
               then G1 \<lparr> kTLSSupportRX := True \<rparr> else G1);
         G3 = (if (major = 5 \<and> minor \<ge> 1) \<or> major > 5
               then G2 \<lparr> kTLSSupportAESGCM256 := True, kTLSSupportTLS13TX := True \<rparr> else G2);
         G4 = (if (major = 5 \<and> minor \<ge> 11) \<or> major > 5
               then G3 \<lparr> kTLSSupportCHACHA20POLY1305 := True \<rparr> else G3);
         G5 = (if (major = 5 \<and> minor \<ge> 19) \<or> major > 5
               then G4 \<lparr> kTLSSupportZEROCOPY := True \<rparr> else G4);
         G6 = (if major > 5
               then G5 \<lparr> kTLSSupportTLS13RX := True, kTLSSupportNOPAD := True \<rparr> else G5)
     in G6)"

text \<open>\<open>init\<close>: \<open>None\<close> is the panic; every other early exit returns with the flags set
  so far.\<close>

definition init :: "bool \<Rightarrow> bool \<Rightarrow> release_probe \<Rightarrow> ktls_support option" where
  "init module_present kTLSEnabled probe =
    (if \<not> module_present then Some no_support
     else
       let G = no_support \<lparr> kTLSSupport := True \<and> kTLSEnabled \<rparr> in
       if \<not> kTLSSupport G then Some G
       else
         case probe of
           UnameFails \<Rightarrow> Some G
         | SlicePanics \<Rightarrow> None
         | AtoiFails \<Rightarrow> Some G
         | Release major minor \<Rightarrow> Some (version_thresholds major minor G))"

text \<open>Kernel versions are ordered by \<open>major\<close>, then \<open>minor\<close>: "at least" and
  "below" on pairs.\<close>

definition version_at_least :: "int \<times> int \<Rightarrow> int \<times> int \<Rightarrow> bool" where
  "version_at_least v bound =
    (fst v > fst bound \<or> (fst v = fst bound \<and> snd v \<ge> snd bound))"

definition version_below :: "int \<times> int \<Rightarrow> int \<times> int \<Rightarrow> bool" where
  "version_below v1 v2 = (fst v1 < fst v2 \<or> (fst v1 = fst v2 \<and> snd v1 < snd v2))"

section \<open>Record-type I/O\<close>

record cmsg =
  cmsg_Level :: int
  cmsg_Type :: int
  cmsg_data :: byte

text \<open>
  \<open>rwc.Read\<close> running the closure of \<open>ktlsReadRecord\<close>. The state is what the closure
  shares with the function: \<open>n\<close>, \<open>err\<close>, the control buffer and \<open>b\<close>. The result adds
  \<open>err0\<close>, the error of \<open>rwc.Read\<close> itself.
\<close>

fun recvmsg_loop ::
  "recv_event list \<Rightarrow> int \<Rightarrow> error option \<Rightarrow> cmsg \<Rightarrow> byte list \<Rightarrow>
   (int \<times> error option \<times> error option \<times> cmsg \<times> byte list) outcome" where
  "recvmsg_loop [] n err cm b = Blocks"
| "recvmsg_loop (RecvWaitFails e # evs) n err cm b = Returns (n, err, Some e, cm, b)"
| "recvmsg_loop (RecvmsgFails e # evs) n err cm b =
     (if e = EAGAIN then recvmsg_loop evs (- 1) (Some e) cm b
      else Returns (- 1, Some e, None, cm, b))"
| "recvmsg_loop (Recvmsg payload level type d # evs) n err cm b =
     (let got = take (length b) payload;
          n' = int (length got)
      in Returns (n', if n' = 0 then Some EOF else None, None,
                  \<lparr> cmsg_Level = level, cmsg_Type = type, cmsg_data = d \<rparr>,
                  got @ drop (length got) b))"

text \<open>\<open>ktlsReadRecord\<close> returns \<open>(typ, n, err)\<close>; the model adds the buffer \<open>b\<close> as the
  call leaves it. Taking \<open>&b[0]\<close> of an empty buffer panics.\<close>

definition ktlsReadRecord ::
  "TCPConn \<Rightarrow> byte list \<Rightarrow> (byte \<times> int \<times> error option \<times> byte list) outcome" where
  "ktlsReadRecord c b =
    (if b = [] then Panics
     else
       case SyscallConn_err c of
         Some err \<Rightarrow> Returns (0, 0, Some err, b)
       | None \<Rightarrow>
          (case recvmsg_loop (recvmsg_events c) 0 None
                  \<lparr> cmsg_Level = 0, cmsg_Type = 0, cmsg_data = 0 \<rparr> b of
             Panics \<Rightarrow> Panics
           | Blocks \<Rightarrow> Blocks
           | Returns (n, err, err0, cm, b') \<Rightarrow>
               let err = (if err0 \<noteq> None then err0 else err) in
               if err \<noteq> None then Returns (0, if n = - 1 then 0 else n, err, b')
               else if n < 0 then Returns (0, 0, Some (UnknownSizeReceived n), b')
               else if n = 0 then Returns (0, 0, None, b')
               else if cmsg_Level cm \<noteq> SOL_TLS then
                 Returns (0, 0, Some (UnsupportedCmsgLevel (cmsg_Level cm)), b')
               else if cmsg_Type cm \<noteq> TLS_GET_RECORD_TYPE then
                 Returns (0, 0, Some (UnsupportedCmsgType (cmsg_Type cm)), b')
               else Returns (cmsg_data cm, n, None, b')))"

text \<open>\<open>ktlsReadDataFromRecord\<close> returns \<open>(n, err)\<close>; again the buffer comes with it.
  Indexing \<open>b[1]\<close> or \<open>b[0]\<close> past the end of \<open>b\<close> panics.\<close>

definition ktlsReadDataFromRecord ::
  "tls_consts \<Rightarrow> TCPConn \<Rightarrow> byte list \<Rightarrow> (int \<times> error option \<times> byte list) outcome" where
  "ktlsReadDataFromRecord K c b =
    (case ktlsReadRecord c b of
       Panics \<Rightarrow> Panics
     | Blocks \<Rightarrow> Blocks
     | Returns (typ, n, err, b') \<Rightarrow>
         if err \<noteq> None then Returns (n, err, b')
         else if typ = recordTypeAlert K then
           (if n < 2 then Returns (0, Some AlertPayloadTooShort, b')
            else if length b' < 2 then Panics
            else if b' ! 1 = alertCloseNotify K then Returns (0, Some EOF, b')
            else Returns (0, Some (UnsupportedAlertType (b' ! 0)), b'))
         else if typ = recordTypeApplicationData K then Returns (n, None, b')
         else Returns (0, Some (UnsupportedRecordType typ), b'))"

section \<open>Zero-copy transfer\<close>

text \<open>
  An \<open>*os.File\<close>: its bytes, its current offset, the system calls on it that may
  fail, and what the kernel does at each \<open>splice\<close> into it, one entry per call:
  \<open>SpliceOut k\<close> moves at most \<open>k\<close> bytes (a short write when \<open>k\<close> is below the length
  asked for), \<open>SpliceOutFails\<close> fails. When the list is exhausted every further
  \<open>splice\<close> moves all it is asked for.
\<close>

datatype file_event = SpliceOut nat | SpliceOutFails error

record File =
  contents :: "byte list"
  position :: int
  Seek_err :: "error option"
  Stat_err :: "error option"
  Truncate_err :: "error option"
  Mmap_err :: "error option"
  file_SyscallConn_err :: "error option"
  file_Write_err :: "error option"
  file_events :: "file_event list"

text \<open>An empty file on which every call succeeds, and a connection that is no
  TCP connection and whose \<open>Read\<close> calls return the given results.\<close>

definition empty_file :: File where
  "empty_file =
    \<lparr> contents = [], position = 0, Seek_err = None, Stat_err = None, Truncate_err = None,
      Mmap_err = None, file_SyscallConn_err = None, file_Write_err = None,
      file_events = [] \<rparr>"

definition reading :: "read_event list \<Rightarrow> Conn" where
  "reading evs = \<lparr> conn = None, out_seq = [], in_seq = [], Read_events = evs \<rparr>"

text \<open>A connection over a TCP socket on which every call succeeds and whose
  \<open>splice\<close> calls go as listed.\<close>

definition splicing :: "splice_event list \<Rightarrow> Conn" where
  "splicing evs =
    \<lparr> conn = Some (quiet_socket \<lparr> splice_events := evs \<rparr>), out_seq = [], in_seq = [],
      Read_events = [] \<rparr>"

text \<open>A stream that reaches the socket as the chunks \<open>cs\<close>: without interruption,
  and with a would-block result before each chunk.\<close>

definition uninterrupted :: "byte list list \<Rightarrow> splice_event list" where
  "uninterrupted cs = map SpliceIn cs"

definition interrupted :: "byte list list \<Rightarrow> splice_event list" where
  "interrupted cs = concat (map (\<lambda>chunk. [SpliceInFails EAGAIN, SpliceIn chunk]) cs)"

text \<open>A file into which a \<open>splice\<close> may be short but does not fail, at an offset
  that is not negative.\<close>

definition steady_file :: "File \<Rightarrow> bool" where
  "steady_file f =
    (file_Write_err f = None \<and> list_all (\<lambda>ev. \<exists>k. ev = SpliceOut k) (file_events f) \<and>
     0 \<le> position f)"

text \<open>An \<open>int64\<close> sum or difference, wrapped into the range of the type.\<close>

definition wrap64 :: "int \<Rightarrow> int" where
  "wrap64 x = (x + 2 ^ 63) mod 2 ^ 64 - 2 ^ 63"

definition maxBufferSize :: int where "maxBufferSize = 4 * 1024 * 1024"
definition maxSpliceSize :: int where "maxSpliceSize = 4 * 2 ^ 20"

subsection \<open>The mapped-buffer fallback\<close>

text \<open>
  One turn of the \<open>for\<close> loop of \<open>writeToFile\<close> over \<open>bytes\<close>, the mapped range
  \<open>[offset, offset + remain)\<close> of the file, with the result of its \<open>c.Read\<close>. The
  turn leaves the function (\<open>Inl\<close>, with \<open>(written, err)\<close> and the range as the reads
  left it) or goes round again (\<open>Inr\<close>, with \<open>bytes\<close>, \<open>start\<close> and \<open>end\<close>). A slice
  \<open>bytes[start:end]\<close> out of range panics.
\<close>

definition readTurn ::
  "read_event \<Rightarrow> byte list \<Rightarrow> int \<Rightarrow> int \<Rightarrow> int \<Rightarrow>
   (int \<times> error option \<times> byte list) outcome + (byte list \<times> int \<times> int)" where
  "readTurn ev bytes remain start end0 =
    (case ev of Read data err \<Rightarrow>
      let end1 = (if end0 > remain then remain else end0) in
      if start < 0 \<or> end1 < start \<or> int (length bytes) < end1 then Inl Panics
      else
        let got = take (nat (end1 - start)) data;
            n = int (length got);
            bytes' = take (nat start) bytes @ got @ drop (nat (start + n)) bytes
        in if err \<noteq> None then Inl (Returns (wrap64 (start + n), err, bytes'))
           else
             let start' = wrap64 (start + n) in
             if start' \<ge> remain then Inl (Returns (remain, None, bytes'))
             else Inr (bytes', start', wrap64 (end1 + n)))"

fun readLoop ::
  "read_event list \<Rightarrow> byte list \<Rightarrow> int \<Rightarrow> int \<Rightarrow> int \<Rightarrow>
   (int \<times> error option \<times> byte list) outcome" where
  "readLoop [] bytes remain start end0 = Blocks"
| "readLoop (ev # evs) bytes remain start end0 =
     (case readTurn ev bytes remain start end0 of
        Inl result \<Rightarrow> result
      | Inr (bytes', start', end') \<Rightarrow> readLoop evs bytes' remain start' end')"

text \<open>
  For the statements about the loop. \<open>stored_by_reads\<close> is what the successive
  \<open>c.Read\<close> calls store, in order, from byte \<open>start\<close> of the range on: each call
  stores at most \<open>min(maxBufferSize, remain - start)\<close> bytes of what it has, and the
  calls end with the first error or once \<open>remain\<close> bytes are stored. \<open>end_at_top\<close>
  lists the values \<open>end\<close> can have at the top of the loop: a full buffer past
  \<open>start\<close>, or at least \<open>remain\<close> once the rest is shorter than a buffer, or below zero
  after an \<open>int64\<close> overflow of \<open>end += n\<close>.
\<close>

fun stored_by_reads :: "read_event list \<Rightarrow> int \<Rightarrow> int \<Rightarrow> byte list" where
  "stored_by_reads [] remain start = []"
| "stored_by_reads (Read data err # evs) remain start =
     take (nat (min maxBufferSize (remain - start))) data @
     (if err \<noteq> None \<or>
         start + int (length (take (nat (min maxBufferSize (remain - start))) data)) \<ge> remain
      then []
      else stored_by_reads evs remain
             (start + int (length (take (nat (min maxBufferSize (remain - start))) data))))"

definition end_at_top :: "int \<Rightarrow> int \<Rightarrow> int \<Rightarrow> bool" where
  "end_at_top remain start end0 =
    (end0 < 0 \<or> end0 = start + maxBufferSize \<or>
     (end0 \<ge> remain \<and> remain - start \<le> maxBufferSize))"

text \<open>\<open>writeToFile\<close> returns \<open>(written, err, handled)\<close>; the model adds the file as the
  call leaves it. \<open>Truncate\<close> is reached only to extend the file, with zero bytes;
  \<open>unix.Mmap\<close> refuses a length that is not positive.\<close>

definition writeToFile ::
  "Conn \<Rightarrow> File \<Rightarrow> int \<Rightarrow> (int \<times> error option \<times> bool \<times> File) outcome" where
  "writeToFile c f remain =
    (if remain \<le> 0 then Returns (0, None, False, f)
     else if Seek_err f \<noteq> None then Returns (0, None, False, f)
     else
       let offset = position f in
       if Stat_err f \<noteq> None then Returns (0, None, False, f)
       else
         let size = int (length (contents f));
             total = wrap64 (offset + remain);
             extend = total > size
         in if extend \<and> Truncate_err f \<noteq> None then Returns (0, None, False, f)
            else
              let f1 = (if extend
                        then f \<lparr> contents := contents f @ replicate (nat (total - size)) 0 \<rparr>
                        else f)
              in if total \<le> 0 \<or> Mmap_err f \<noteq> None then Returns (0, None, False, f1)
                 else
                   let mapped = take (nat total) (contents f1) in
                   if offset < 0 \<or> total < offset \<or> int (length mapped) < total then Panics
                   else
                     case readLoop (Read_events c) (drop (nat offset) mapped) remain 0
                            maxBufferSize of
                       Panics \<Rightarrow> Panics
                     | Blocks \<Rightarrow> Blocks
                     | Returns (written, err, bytes) \<Rightarrow>
                         Returns (written, err, True,
                           f1 \<lparr> contents := take (nat offset) (contents f1) @ bytes @
                                             drop (nat total) (contents f1) \<rparr>))"

subsection \<open>The splice bridge\<close>

text \<open>A write of \<open>bs\<close> at the current offset of the file, which moves on by their
  number; a gap between the end of the file and the offset reads as zeros.\<close>

definition file_write :: "File \<Rightarrow> byte list \<Rightarrow> File" where
  "file_write f bs =
    (let pos = nat (position f);
         old = contents f @ replicate (pos - length (contents f)) 0
     in f \<lparr> contents := take pos old @ bs @ drop (pos + length bs) old,
           position := position f + int (length bs) \<rparr>)"

text \<open>
  The closure given to \<open>fsc.Write\<close>, with its label \<open>bump\<close>: \<open>pipe\<close> holds the bytes
  waiting in the pipe, \<open>n\<close> the length still to move. \<open>spliceOut\<close> is one \<open>unix.Splice\<close>
  into the file and what follows it: the closure returns (\<open>Inl\<close>, with \<open>err\<close> and the
  file) or jumps back to \<open>bump\<close> (\<open>Inr\<close>, with the pipe, \<open>n\<close> and the file).
\<close>

definition spliceOut ::
  "file_event \<Rightarrow> byte list \<Rightarrow> int \<Rightarrow> File \<Rightarrow>
   (error option \<times> File) + (byte list \<times> int \<times> File)" where
  "spliceOut ev pipe n f =
    (case ev of
       SpliceOutFails e \<Rightarrow> Inl (Some e, f)
     | SpliceOut k \<Rightarrow>
         let moved = take (min k (nat n)) pipe;
             m = int (length moved);
             f' = file_write f moved
         in if m < n then Inr (drop (length moved) pipe, n - m, f')
            else Inl (None, f'))"

fun bump ::
  "file_event list \<Rightarrow> byte list \<Rightarrow> int \<Rightarrow> File \<Rightarrow> error option \<times> File \<times> file_event list" where
  "bump [] pipe n f = (None, file_write f (take (nat n) pipe), [])"
| "bump (ev # evs) pipe n f =
     (case spliceOut ev pipe n f of
        Inl (err, f') \<Rightarrow> (err, f', evs)
      | Inr (pipe', n', f') \<Rightarrow> bump evs pipe' n' f')"

text \<open>\<open>fsc.Write\<close> with that closure, and the \<open>if err == nil { err = werr }\<close> after
  it: \<open>fsc.Write\<close> may fail without running the closure.\<close>

definition moveToFile :: "File \<Rightarrow> byte list \<Rightarrow> int \<Rightarrow> error option \<times> File" where
  "moveToFile f pipe n =
    (case file_Write_err f of
       Some werr \<Rightarrow> (Some werr, f)
     | None \<Rightarrow>
         (case bump (file_events f) pipe n f of
            (err, f', evs') \<Rightarrow> (err, f' \<lparr> file_events := evs' \<rparr>)))"

text \<open>
  The closure given to \<open>sc.Read\<close>, run by \<open>sc.Read\<close> until it returns \<open>true\<close>;
  \<open>spliceIn\<close> is one \<open>unix.Splice\<close> out of the socket and what follows it. A failed
  \<open>unix.Splice\<close> returns \<open>n = -1\<close> beside its error, and \<open>remain\<close> and \<open>written\<close>
  are updated with that \<open>n\<close> before the error is looked at. The length is passed to
  the kernel as an unsigned machine word. \<open>Inl\<close> leaves \<open>sc.Read\<close> with
  \<open>(written, err)\<close> and the file, \<open>Inr\<close> goes on with the file, \<open>remain\<close> and
  \<open>written\<close>: round the \<open>for\<close> loop, or back into the closure after the wait.
\<close>

definition spliceIn ::
  "splice_event \<Rightarrow> File \<Rightarrow> int \<Rightarrow> int \<Rightarrow>
   (int \<times> error option \<times> File) + (File \<times> int \<times> int)" where
  "spliceIn ev f remain written =
    (case ev of
       SpliceWaitFails e \<Rightarrow> Inl (written, Some e, f)
     | SpliceInFails e \<Rightarrow>
         let n = - 1;
             remain' = wrap64 (remain - n);
             written' = wrap64 (written + n)
         in if e = EAGAIN then Inr (f, remain', written')
            else Inl (written', Some e, f)
     | SpliceIn data \<Rightarrow>
         let n0 = (if maxSpliceSize > remain then remain else maxSpliceSize);
             pipe = take (nat (n0 mod 2 ^ 64)) data;
             n = int (length pipe);
             remain' = wrap64 (remain - n);
             written' = wrap64 (written + n);
             (err, f') = moveToFile f pipe n
         in if err \<noteq> None \<or> remain' \<le> 0 then Inl (written', err, f')
            else Inr (f', remain', written'))"

fun spliceLoop ::
  "splice_event list \<Rightarrow> File \<Rightarrow> int \<Rightarrow> int \<Rightarrow> (int \<times> error option \<times> File) outcome" where
  "spliceLoop [] f remain written = Blocks"
| "spliceLoop (ev # evs) f remain written =
     (case spliceIn ev f remain written of
        Inl result \<Rightarrow> Returns result
      | Inr (f', remain', written') \<Rightarrow> spliceLoop evs f' remain' written')"

text \<open>\<open>spliceToFile\<close> returns \<open>(written, err, handled)\<close>; the model adds the file.
  \<open>Pipe_err\<close> is the result of \<open>unix.Pipe\<close>.\<close>

definition spliceToFile ::
  "Conn \<Rightarrow> error option \<Rightarrow> File \<Rightarrow> int \<Rightarrow> (int \<times> error option \<times> bool \<times> File) outcome" where
  "spliceToFile c Pipe_err f remain =
    (case conn c of
       None \<Rightarrow> Returns (0, None, False, f)
     | Some tcpConn \<Rightarrow>
         if SyscallConn_err tcpConn \<noteq> None then Returns (0, None, False, f)
         else if file_SyscallConn_err f \<noteq> None then Returns (0, None, False, f)
         else if Pipe_err \<noteq> None then Returns (0, None, False, f)
         else
           (case spliceLoop (splice_events tcpConn) f remain 0 of
              Panics \<Rightarrow> Panics
            | Blocks \<Rightarrow> Blocks
            | Returns (written, err, f') \<Rightarrow> Returns (written, err, True, f')))"

section \<open>Properties\<close>

subsection \<open>Sizes and the length checks\<close>

lemmas AES128_sizes =
  kTLS_CIPHER_AES_GCM_128_IV_SIZE_def kTLS_CIPHER_AES_GCM_128_KEY_SIZE_def
  kTLS_CIPHER_AES_GCM_128_SALT_SIZE_def kTLS_CIPHER_AES_GCM_128_REC_SEQ_SIZE_def
  kTLSCryptoInfoSize_AES_GCM_128_def

lemmas AES256_sizes =
  kTLS_CIPHER_AES_GCM_256_IV_SIZE_def kTLS_CIPHER_AES_GCM_256_KEY_SIZE_def
  kTLS_CIPHER_AES_GCM_256_SALT_SIZE_def kTLS_CIPHER_AES_GCM_256_REC_SEQ_SIZE_def
  kTLSCryptoInfoSize_AES_GCM_256_def

lemmas CHACHA20_sizes =
  kTLS_CIPHER_CHACHA20_POLY1305_IV_SIZE_def kTLS_CIPHER_CHACHA20_POLY1305_KEY_SIZE_def
  kTLS_CIPHER_CHACHA20_POLY1305_SALT_SIZE_def kTLS_CIPHER_CHACHA20_POLY1305_REC_SEQ_SIZE_def
  kTLSCryptoInfoSize_CHACHA20_POLY1305_def

lemmas family_sizes = AES128_sizes AES256_sizes CHACHA20_sizes

lemma length_copy_bytes: "length (copy_bytes dst src) = length dst"
  by (simp add: copy_bytes_def)

lemma length_zero_array: "length (zero_array n) = n"
  by (simp add: zero_array_def)

lemma length_uint16_bytes: "length (uint16_bytes bo w) = 2"
  by (cases bo) (simp_all add: uint16_bytes_def)

lemma length_cryptoInfoAESGCM128:
  "length (cryptoInfo_bytes bo (cryptoInfoAESGCM128 version key iv seq)) =
     kTLSCryptoInfoSize_AES_GCM_128"
  by (simp add: cryptoInfo_bytes_def cryptoInfoAESGCM128_def length_copy_bytes
        length_zero_array length_uint16_bytes kTLSCryptoInfoSize_AES_GCM_128_def)

lemma length_cryptoInfoAESGCM256:
  "length (cryptoInfo_bytes bo (cryptoInfoAESGCM256 version key iv seq)) =
     kTLSCryptoInfoSize_AES_GCM_256"
  by (simp add: cryptoInfo_bytes_def cryptoInfoAESGCM256_def length_copy_bytes
        length_zero_array length_uint16_bytes kTLSCryptoInfoSize_AES_GCM_256_def)

lemma length_cryptoInfoCHACHA20POLY1305:
  "length (cryptoInfo_bytes bo (cryptoInfoCHACHA20POLY1305 version key iv seq)) =
     kTLSCryptoInfoSize_CHACHA20_POLY1305"
  by (simp add: cryptoInfo_bytes_def cryptoInfoCHACHA20POLY1305_def length_copy_bytes
        length_zero_array length_uint16_bytes kTLSCryptoInfoSize_CHACHA20_POLY1305_def)

lemma ktlsEnableAES128GCM_rejects:
  "checkLengthsAES128GCM K version key iv seq = Some err \<Longrightarrow>
   ktlsEnableAES128GCM K bo c version opt skip key iv seq = (Some err, [])"
  by (simp add: ktlsEnableAES128GCM_def)

lemma ktlsEnableAES128GCM_configures:
  "checkLengthsAES128GCM K version key iv seq = None \<Longrightarrow>
   SyscallConn_err c = None \<Longrightarrow> Control_err c = None \<Longrightarrow>
   ktlsEnableAES128GCM K bo c version opt skip key iv seq =
     controlAES128GCM c skip
       (SetsockoptString SOL_TLS opt (cryptoInfo_bytes bo (cryptoInfoAESGCM128 version key iv seq)))"
  by (simp add: ktlsEnableAES128GCM_def Let_def length_cryptoInfoAESGCM128)


lemma ktlsEnableAES256GCM_rejects:
  "checkLengthsAES256GCM K version key iv seq = Some err \<Longrightarrow>
   ktlsEnableAES256GCM K bo c version opt skip key iv seq = (Some err, [])"
  by (simp add: ktlsEnableAES256GCM_def)

lemma ktlsEnableAES256GCM_configures:
  "checkLengthsAES256GCM K version key iv seq = None \<Longrightarrow>
   SyscallConn_err c = None \<Longrightarrow> Control_err c = None \<Longrightarrow>
   ktlsEnableAES256GCM K bo c version opt skip key iv seq =
     controlBindThenConfigure c skip
       (SetsockoptString SOL_TLS opt (cryptoInfo_bytes bo (cryptoInfoAESGCM256 version key iv seq)))"
  by (simp add: ktlsEnableAES256GCM_def Let_def length_cryptoInfoAESGCM256)

lemma ktlsEnableCHACHA20POLY1305_rejects:
  "checkLengthsCHACHA20POLY1305 key iv seq = Some err \<Longrightarrow>
   ktlsEnableCHACHA20POLY1305 bo c version opt skip key iv seq = (Some err, [])"
  by (simp add: ktlsEnableCHACHA20POLY1305_def)

lemma ktlsEnableCHACHA20POLY1305_configures:
  "checkLengthsCHACHA20POLY1305 key iv seq = None \<Longrightarrow>
   SyscallConn_err c = None \<Longrightarrow> Control_err c = None \<Longrightarrow>
   ktlsEnableCHACHA20POLY1305 bo c version opt skip key iv seq =
     controlBindThenConfigure c skip
       (SetsockoptString SOL_TLS opt
          (cryptoInfo_bytes bo (cryptoInfoCHACHA20POLY1305 version key iv seq)))"
  by (simp add: ktlsEnableCHACHA20POLY1305_def Let_def length_cryptoInfoCHACHA20POLY1305)


lemma ktlsEnable_rejects:
  "checkLengths fam K version key iv seq = Some err \<Longrightarrow>
   ktlsEnable fam K bo c version opt skip key iv seq = (Some err, [])"
  by (cases fam)
     (simp_all add: ktlsEnable_def checkLengths_def ktlsEnableAES128GCM_rejects
        ktlsEnableAES256GCM_rejects ktlsEnableCHACHA20POLY1305_rejects)

lemma length_cryptoInfo:
  "length (cryptoInfo_bytes bo (cryptoInfo fam version key iv seq)) =
     2 + 2 + IV_SIZE fam + KEY_SIZE fam + SALT_SIZE fam + REC_SEQ_SIZE fam"
  by (cases fam)
     (simp_all add: cryptoInfo_def length_cryptoInfoAESGCM128 length_cryptoInfoAESGCM256
        length_cryptoInfoCHACHA20POLY1305 kTLSCryptoInfoSize_AES_GCM_128_def
        kTLSCryptoInfoSize_AES_GCM_256_def kTLSCryptoInfoSize_CHACHA20_POLY1305_def)

lemma checkLengths_None_iff:
  "checkLengths fam K version key iv seq = None \<longleftrightarrow>
     length key = KEY_SIZE fam \<and> length iv = profile_iv_length K fam version \<and>
     length seq = REC_SEQ_SIZE fam"
  by (cases fam; cases "version = VersionTLS12 K")
     (simp_all add: checkLengths_def checkLengthsAES128GCM_def checkLengthsAES256GCM_def
        checkLengthsCHACHA20POLY1305_def)

lemma checkLengths_key:
  "length key \<noteq> KEY_SIZE fam \<Longrightarrow>
   checkLengths fam K version key iv seq = Some (WrongKeyLength (KEY_SIZE fam) (length key))"
  by (cases fam; cases "version = VersionTLS12 K")
     (simp_all add: checkLengths_def checkLengthsAES128GCM_def checkLengthsAES256GCM_def
        checkLengthsCHACHA20POLY1305_def)

lemma checkLengths_iv:
  "length key = KEY_SIZE fam \<Longrightarrow> length iv \<noteq> profile_iv_length K fam version \<Longrightarrow>
   checkLengths fam K version key iv seq =
     Some (WrongIVLength (profile_iv_length K fam version) (length iv))"
  by (cases fam; cases "version = VersionTLS12 K")
     (simp_all add: checkLengths_def checkLengthsAES128GCM_def checkLengthsAES256GCM_def
        checkLengthsCHACHA20POLY1305_def)

lemma checkLengths_seq:
  "length key = KEY_SIZE fam \<Longrightarrow> length iv = profile_iv_length K fam version \<Longrightarrow>
   length seq \<noteq> REC_SEQ_SIZE fam \<Longrightarrow>
   checkLengths fam K version key iv seq =
     Some (WrongSeqLength (REC_SEQ_SIZE fam) (length seq))"
  by (cases fam; cases "version = VersionTLS12 K")
     (simp_all add: checkLengths_def checkLengthsAES128GCM_def checkLengthsAES256GCM_def
        checkLengthsCHACHA20POLY1305_def)

lemma ktlsEnable_configures:
  assumes "checkLengths fam K version key iv seq = None"
    and "SyscallConn_err c = None" and "Control_err c = None"
    and "skip \<or> setsockopt c ulp_bind = None"
  shows "ktlsEnable fam K bo c version opt skip key iv seq =
     (setsockopt c (SetsockoptString SOL_TLS opt
        (cryptoInfo_bytes bo (cryptoInfo fam version key iv seq))),
      (if skip then [] else [ulp_bind]) @
      [SetsockoptString SOL_TLS opt (cryptoInfo_bytes bo (cryptoInfo fam version key iv seq))])"
proof (cases fam)
  case AES_GCM_128
  with assms show ?thesis
    by (simp add: ktlsEnable_def checkLengths_def cryptoInfo_def
          ktlsEnableAES128GCM_configures controlAES128GCM_def)
next
  case AES_GCM_256
  with assms show ?thesis
    by (auto simp add: ktlsEnable_def checkLengths_def cryptoInfo_def
          ktlsEnableAES256GCM_configures controlBindThenConfigure_def)
next
  case CHACHA20_POLY1305
  with assms show ?thesis
    by (auto simp add: ktlsEnable_def checkLengths_def cryptoInfo_def
          ktlsEnableCHACHA20POLY1305_configures controlBindThenConfigure_def)
qed

subsection \<open>Claim C1\<close>

text \<open>
  C1. For every cipher family, the enable function called with a key, an IV and a
  sequence number of exactly the lengths of the family's profile hands the kernel a
  configuration blob of \<open>2 + 2 + IV_SIZE + KEY_SIZE + SALT_SIZE + REC_SEQ_SIZE\<close> bytes
  (on a socket whose \<open>SyscallConn\<close> and \<open>Control\<close> succeed and, when the ULP is still
  to be bound, whose bind succeeds, the socket calls are the bind followed by that one
  \<open>setsockopt\<close>); a key, an IV or a sequence number of any other length, so also one
  byte shorter or longer, is answered with the length error of that parameter and
  with no socket call at all.
\<close>

theorem enable_exact_lengths:
  "(length key = KEY_SIZE fam \<and> length iv = profile_iv_length K fam version \<and>
    length seq = REC_SEQ_SIZE fam \<and>
    SyscallConn_err c = None \<and> Control_err c = None \<and> (skip \<or> setsockopt c ulp_bind = None)
    \<longrightarrow> (\<exists>blob. length blob =
                  2 + 2 + IV_SIZE fam + KEY_SIZE fam + SALT_SIZE fam + REC_SEQ_SIZE fam \<and>
               snd (ktlsEnable fam K bo c version opt skip key iv seq) =
                 (if skip then [] else [ulp_bind]) @ [SetsockoptString SOL_TLS opt blob]))
   \<and> (length key \<noteq> KEY_SIZE fam
        \<longrightarrow> ktlsEnable fam K bo c version opt skip key iv seq =
              (Some (WrongKeyLength (KEY_SIZE fam) (length key)), []))
   \<and> (length key = KEY_SIZE fam \<and> length iv \<noteq> profile_iv_length K fam version
        \<longrightarrow> ktlsEnable fam K bo c version opt skip key iv seq =
              (Some (WrongIVLength (profile_iv_length K fam version) (length iv)), []))
   \<and> (length key = KEY_SIZE fam \<and> length iv = profile_iv_length K fam version \<and>
      length seq \<noteq> REC_SEQ_SIZE fam
        \<longrightarrow> ktlsEnable fam K bo c version opt skip key iv seq =
              (Some (WrongSeqLength (REC_SEQ_SIZE fam) (length seq)), []))"
proof (intro conjI impI)
  assume ok: "length key = KEY_SIZE fam \<and> length iv = profile_iv_length K fam version \<and>
    length seq = REC_SEQ_SIZE fam \<and>
    SyscallConn_err c = None \<and> Control_err c = None \<and> (skip \<or> setsockopt c ulp_bind = None)"
  then have chk: "checkLengths fam K version key iv seq = None"
    by (simp add: checkLengths_None_iff)
  let ?blob = "cryptoInfo_bytes bo (cryptoInfo fam version key iv seq)"
  from ok have "snd (ktlsEnable fam K bo c version opt skip key iv seq) =
                  (if skip then [] else [ulp_bind]) @ [SetsockoptString SOL_TLS opt ?blob]"
    by (subst ktlsEnable_configures [OF chk]) simp_all
  with length_cryptoInfo [of bo fam version key iv seq]
  show "\<exists>blob. length blob =
                  2 + 2 + IV_SIZE fam + KEY_SIZE fam + SALT_SIZE fam + REC_SEQ_SIZE fam \<and>
               snd (ktlsEnable fam K bo c version opt skip key iv seq) =
                 (if skip then [] else [ulp_bind]) @ [SetsockoptString SOL_TLS opt blob]"
    by blast
next
  assume "length key \<noteq> KEY_SIZE fam"
  then show "ktlsEnable fam K bo c version opt skip key iv seq =
              (Some (WrongKeyLength (KEY_SIZE fam) (length key)), [])"
    by (simp add: ktlsEnable_rejects checkLengths_key)
next
  assume "length key = KEY_SIZE fam \<and> length iv \<noteq> profile_iv_length K fam version"
  then show "ktlsEnable fam K bo c version opt skip key iv seq =
              (Some (WrongIVLength (profile_iv_length K fam version) (length iv)), [])"
    by (simp add: ktlsEnable_rejects checkLengths_iv)
next
  assume "length key = KEY_SIZE fam \<and> length iv = profile_iv_length K fam version \<and>
      length seq \<noteq> REC_SEQ_SIZE fam"
  then show "ktlsEnable fam K bo c version opt skip key iv seq =
              (Some (WrongSeqLength (REC_SEQ_SIZE fam) (length seq)), [])"
    by (simp add: ktlsEnable_rejects checkLengths_seq)
qed


theorem enable_exact_lengths_witness:
  "(\<exists>blob. length blob = 40 \<and>
      snd (ktlsEnable AES_GCM_128 go_consts LittleEndian quiet_socket 0x0303 TLS_TX False
             (replicate 16 0) (replicate 4 0) (replicate 8 0)) =
        [ulp_bind, SetsockoptString SOL_TLS TLS_TX blob])
   \<and> ktlsEnable CHACHA20_POLY1305 go_consts LittleEndian quiet_socket 0x0304 TLS_RX True
         (replicate 31 0) (replicate 12 0) (replicate 8 0) = (Some (WrongKeyLength 32 31), [])
   \<and> ktlsEnable AES_GCM_256 go_consts LittleEndian quiet_socket 0x0304 TLS_TX False
         (replicate 32 0) (replicate 13 0) (replicate 8 0) = (Some (WrongIVLength 12 13), [])
   \<and> ktlsEnable AES_GCM_128 go_consts LittleEndian quiet_socket 0x0303 TLS_TX False
         (replicate 16 0) (replicate 4 0) (replicate 7 0) = (Some (WrongSeqLength 8 7), [])"
  using
    enable_exact_lengths [where fam = AES_GCM_128 and K = go_consts and bo = LittleEndian
      and c = quiet_socket and version = "0x0303" and opt = TLS_TX and skip = False
      and key = "replicate 16 0" and iv = "replicate 4 0" and seq = "replicate 8 0"]
    enable_exact_lengths [where fam = CHACHA20_POLY1305 and K = go_consts and bo = LittleEndian
      and c = quiet_socket and version = "0x0304" and opt = TLS_RX and skip = True
      and key = "replicate 31 0" and iv = "replicate 12 0" and seq = "replicate 8 0"]
    enable_exact_lengths [where fam = AES_GCM_256 and K = go_consts and bo = LittleEndian
      and c = quiet_socket and version = "0x0304" and opt = TLS_TX and skip = False
      and key = "replicate 32 0" and iv = "replicate 13 0" and seq = "replicate 8 0"]
    enable_exact_lengths [where fam = AES_GCM_128 and K = go_consts and bo = LittleEndian
      and c = quiet_socket and version = "0x0303" and opt = TLS_TX and skip = False
      and key = "replicate 16 0" and iv = "replicate 4 0" and seq = "replicate 7 0"]
  by (simp add: family_sizes go_consts_def quiet_socket_def)

subsection \<open>Claim C4\<close>

lemma zero_array_0: "zero_array 0 = []"
  by (simp add: zero_array_def)

lemma info_salt_cryptoInfo:
  "SALT_SIZE fam \<le> length iv \<Longrightarrow>
   info_salt (cryptoInfo fam version key iv seq) = take (SALT_SIZE fam) iv"
  by (cases fam)
     (simp_all add: cryptoInfo_def cryptoInfoAESGCM128_def cryptoInfoAESGCM256_def
        cryptoInfoCHACHA20POLY1305_def copy_bytes_def length_zero_array zero_array_0
        family_sizes)

lemma salt_bytes_cryptoInfo:
  "take (SALT_SIZE fam) (drop (2 + 2 + IV_SIZE fam + KEY_SIZE fam)
      (cryptoInfo_bytes bo (cryptoInfo fam version key iv seq))) =
   info_salt (cryptoInfo fam version key iv seq)"
  by (cases fam)
     (simp_all add: cryptoInfo_def cryptoInfo_bytes_def cryptoInfoAESGCM128_def
        cryptoInfoAESGCM256_def cryptoInfoCHACHA20POLY1305_def length_copy_bytes
        length_zero_array zero_array_0 length_uint16_bytes family_sizes)

lemma ktlsEnable_quiet_socket:
  "fst (ktlsEnable fam K bo quiet_socket version opt skip key iv seq) =
     checkLengths fam K version key iv seq"
proof (cases "checkLengths fam K version key iv seq")
  case None
  then show ?thesis
    by (subst ktlsEnable_configures) (simp_all add: quiet_socket_def)
next
  case (Some err)
  then show ?thesis by (simp add: ktlsEnable_rejects)
qed

text \<open>
  C4, as amended. For AES-GCM-128 and AES-GCM-256 the enable function accepts at
  protocol version 1.2 an IV of exactly salt-size bytes and at version 1.3 one of
  exactly salt-size plus IV-size bytes, and the salt bytes of the blob are the first
  salt-size bytes of the IV in both cases, so identical for two IVs that share them.
  For ChaCha20-Poly1305 it accepts an IV of exactly IV-size bytes at every version,
  and the salt is empty. (Acceptance is read off a socket on which every call
  succeeds: the function returns no error.)
\<close>

theorem iv_length_by_version:
  assumes "VersionTLS13 K \<noteq> VersionTLS12 K"
    and "length key = KEY_SIZE fam" and "length seq = REC_SEQ_SIZE fam"
  shows
  "(fam \<noteq> CHACHA20_POLY1305 \<longrightarrow>
      (fst (ktlsEnable fam K bo quiet_socket (VersionTLS12 K) opt skip key iv seq) = None
         \<longleftrightarrow> length iv = SALT_SIZE fam) \<and>
      (fst (ktlsEnable fam K bo quiet_socket (VersionTLS13 K) opt skip key iv seq) = None
         \<longleftrightarrow> length iv = SALT_SIZE fam + IV_SIZE fam))
   \<and> (fam = CHACHA20_POLY1305 \<longrightarrow>
      (fst (ktlsEnable fam K bo quiet_socket version opt skip key iv seq) = None
         \<longleftrightarrow> length iv = IV_SIZE fam) \<and> SALT_SIZE fam = 0)
   \<and> (length iv = SALT_SIZE fam \<and> length iv' = SALT_SIZE fam + IV_SIZE fam \<and>
      take (SALT_SIZE fam) iv' = iv \<longrightarrow>
      take (SALT_SIZE fam) (drop (2 + 2 + IV_SIZE fam + KEY_SIZE fam)
        (cryptoInfo_bytes bo (cryptoInfo fam (VersionTLS12 K) key iv seq))) = iv \<and>
      take (SALT_SIZE fam) (drop (2 + 2 + IV_SIZE fam + KEY_SIZE fam)
        (cryptoInfo_bytes bo (cryptoInfo fam (VersionTLS13 K) key iv' seq))) = iv)"
proof (intro conjI impI)
  assume aes: "fam \<noteq> CHACHA20_POLY1305"
  then have p12: "profile_iv_length K fam (VersionTLS12 K) = SALT_SIZE fam"
    and p13: "profile_iv_length K fam (VersionTLS13 K) = SALT_SIZE fam + IV_SIZE fam"
    using assms(1) by (cases fam; simp)+
  show "fst (ktlsEnable fam K bo quiet_socket (VersionTLS12 K) opt skip key iv seq) = None
         \<longleftrightarrow> length iv = SALT_SIZE fam"
    using assms(2,3) p12 by (simp add: ktlsEnable_quiet_socket checkLengths_None_iff)
  show "fst (ktlsEnable fam K bo quiet_socket (VersionTLS13 K) opt skip key iv seq) = None
         \<longleftrightarrow> length iv = SALT_SIZE fam + IV_SIZE fam"
    using assms(2,3) p13 by (simp add: ktlsEnable_quiet_socket checkLengths_None_iff)
next
  assume "fam = CHACHA20_POLY1305"
  then show "fst (ktlsEnable fam K bo quiet_socket version opt skip key iv seq) = None
         \<longleftrightarrow> length iv = IV_SIZE fam"
    using assms(2,3) by (simp add: ktlsEnable_quiet_socket checkLengths_None_iff)
next
  assume "fam = CHACHA20_POLY1305"
  then show "SALT_SIZE fam = 0"
    by (simp add: kTLS_CIPHER_CHACHA20_POLY1305_SALT_SIZE_def)
next
  assume h: "length iv = SALT_SIZE fam \<and> length iv' = SALT_SIZE fam + IV_SIZE fam \<and>
      take (SALT_SIZE fam) iv' = iv"
  then have l: "SALT_SIZE fam \<le> length iv" "SALT_SIZE fam \<le> length iv'"
      "take (SALT_SIZE fam) iv = iv" "take (SALT_SIZE fam) iv' = iv"
    by simp_all
  show "take (SALT_SIZE fam) (drop (2 + 2 + IV_SIZE fam + KEY_SIZE fam)
        (cryptoInfo_bytes bo (cryptoInfo fam (VersionTLS12 K) key iv seq))) = iv"
    by (simp only: salt_bytes_cryptoInfo info_salt_cryptoInfo [OF l(1)] l(3))
  show "take (SALT_SIZE fam) (drop (2 + 2 + IV_SIZE fam + KEY_SIZE fam)
        (cryptoInfo_bytes bo (cryptoInfo fam (VersionTLS13 K) key iv' seq))) = iv"
    by (simp only: salt_bytes_cryptoInfo info_salt_cryptoInfo [OF l(2)] l(4))
qed

text \<open>
  The claim as stated fails for ChaCha20-Poly1305: at version 1.2 an IV of salt-size
  (zero) bytes is refused with the length error, and the 12 bytes accepted at 1.2 are
  the 12 bytes accepted at 1.3, so the two accepted lengths do not differ by the IV size.
\<close>

theorem chacha20_iv_length_counterexample:
  "ktlsEnable CHACHA20_POLY1305 go_consts LittleEndian quiet_socket (VersionTLS12 go_consts)
      TLS_TX False (replicate 32 0) (replicate (SALT_SIZE CHACHA20_POLY1305) 0) (replicate 8 0) =
     (Some (WrongIVLength 12 0), [])
   \<and> fst (ktlsEnable CHACHA20_POLY1305 go_consts LittleEndian quiet_socket
           (VersionTLS12 go_consts) TLS_TX False (replicate 32 0) (replicate 12 0)
           (replicate 8 0)) = None
   \<and> fst (ktlsEnable CHACHA20_POLY1305 go_consts LittleEndian quiet_socket
           (VersionTLS13 go_consts) TLS_TX False (replicate 32 0) (replicate 12 0)
           (replicate 8 0)) = None"
  by (simp add: ktlsEnable_quiet_socket ktlsEnable_rejects checkLengths_def
        checkLengthsCHACHA20POLY1305_def family_sizes)


theorem iv_length_by_version_witness:
  "fst (ktlsEnable AES_GCM_128 go_consts LittleEndian quiet_socket 0x0303 TLS_TX False
          (replicate 16 0) (replicate 4 7) (replicate 8 0)) = None
   \<and> fst (ktlsEnable AES_GCM_128 go_consts LittleEndian quiet_socket 0x0304 TLS_TX False
          (replicate 16 0) (replicate 12 7) (replicate 8 0)) = None
   \<and> take 4 (drop 28 (cryptoInfo_bytes LittleEndian
        (cryptoInfo AES_GCM_128 0x0303 (replicate 16 0) (replicate 4 7) (replicate 8 0)))) =
      replicate 4 7
   \<and> take 4 (drop 28 (cryptoInfo_bytes LittleEndian
        (cryptoInfo AES_GCM_128 0x0304 (replicate 16 0) (replicate 12 7) (replicate 8 0)))) =
      replicate 4 7"
  using
    iv_length_by_version [where K = go_consts and fam = AES_GCM_128 and bo = LittleEndian
      and opt = TLS_TX and skip = False and key = "replicate 16 0" and seq = "replicate 8 0"
      and iv = "replicate 4 7" and iv' = "replicate 12 7"]
    iv_length_by_version [where K = go_consts and fam = AES_GCM_128 and bo = LittleEndian
      and opt = TLS_TX and skip = False and key = "replicate 16 0" and seq = "replicate 8 0"
      and iv = "replicate 12 7" and iv' = "replicate 12 7"]
  by (simp add: go_consts_def family_sizes)

subsection \<open>Claim C5\<close>

lemma ktlsEnable_AES128_bind_fails:
  assumes "checkLengths AES_GCM_128 K version key iv seq = None"
    and "SyscallConn_err c = None" and "Control_err c = None"
  shows "ktlsEnable AES_GCM_128 K bo c version opt False key iv seq =
     (setsockopt c (SetsockoptString SOL_TLS opt
        (cryptoInfo_bytes bo (cryptoInfo AES_GCM_128 version key iv seq))),
      [ulp_bind, SetsockoptString SOL_TLS opt
        (cryptoInfo_bytes bo (cryptoInfo AES_GCM_128 version key iv seq))])"
  using assms
  by (simp add: ktlsEnable_def checkLengths_def cryptoInfo_def ktlsEnableAES128GCM_configures
        controlAES128GCM_def)

lemma ktlsEnable_bind_failure_returned:
  assumes "fam \<noteq> AES_GCM_128"
    and "checkLengths fam K version key iv seq = None"
    and "SyscallConn_err c = None" and "Control_err c = None"
    and "setsockopt c ulp_bind = Some e"
  shows "ktlsEnable fam K bo c version opt False key iv seq = (Some e, [ulp_bind])"
  using assms
  by (cases fam)
     (simp_all add: ktlsEnable_def checkLengths_def ktlsEnableAES256GCM_configures
        ktlsEnableCHACHA20POLY1305_configures controlBindThenConfigure_def)

lemmas socket_defs =
  quiet_socket_def no_ulp_socket_def bind_fails_socket_def ulp_bind_def tls_string_def
  SOL_TCP_def TCP_ULP_def SOL_TLS_def

text \<open>
  C5. With the ULP not yet bound (\<open>skip = false\<close>) and the bind failing, an enable
  function is to return the bind's error. \<open>ktlsEnableAES256GCM\<close> and
  \<open>ktlsEnableCHACHA20POLY1305\<close> do. \<open>ktlsEnableAES128GCM\<close> does not: it goes on to
  the cipher \<open>setsockopt\<close> and returns that call's result, here \<open>ENOPROTOOPT\<close> in place
  of the bind's \<open>ENOENT\<close>, and no error at all were the kernel to accept the option.
\<close>

theorem aes128_ulp_bind_failure_not_returned:
  "ktlsEnable AES_GCM_128 go_consts LittleEndian no_ulp_socket 0x0303 TLS_TX False
      (replicate 16 0) (replicate 4 0) (replicate 8 0) =
     (Some (Errno 92),
      [ulp_bind, SetsockoptString SOL_TLS TLS_TX (cryptoInfo_bytes LittleEndian
         (cryptoInfo AES_GCM_128 0x0303 (replicate 16 0) (replicate 4 0) (replicate 8 0)))])
   \<and> ktlsEnable AES_GCM_128 go_consts LittleEndian bind_fails_socket 0x0303 TLS_TX False
      (replicate 16 0) (replicate 4 0) (replicate 8 0) =
     (None,
      [ulp_bind, SetsockoptString SOL_TLS TLS_TX (cryptoInfo_bytes LittleEndian
         (cryptoInfo AES_GCM_128 0x0303 (replicate 16 0) (replicate 4 0) (replicate 8 0)))])
   \<and> setsockopt no_ulp_socket ulp_bind = Some (Errno 2)
   \<and> setsockopt bind_fails_socket ulp_bind = Some (Errno 2)
   \<and> ktlsEnable AES_GCM_256 go_consts LittleEndian no_ulp_socket 0x0303 TLS_TX False
      (replicate 32 0) (replicate 4 0) (replicate 8 0) = (Some (Errno 2), [ulp_bind])
   \<and> ktlsEnable CHACHA20_POLY1305 go_consts LittleEndian no_ulp_socket 0x0303 TLS_TX False
      (replicate 32 0) (replicate 12 0) (replicate 8 0) = (Some (Errno 2), [ulp_bind])"
proof -
  have a: "checkLengths AES_GCM_128 go_consts 0x0303 (replicate 16 0) (replicate 4 0)
             (replicate 8 0) = None"
    and b: "checkLengths AES_GCM_256 go_consts 0x0303 (replicate 32 0) (replicate 4 0)
             (replicate 8 0) = None"
    and c: "checkLengths CHACHA20_POLY1305 go_consts 0x0303 (replicate 32 0) (replicate 12 0)
             (replicate 8 0) = None"
    by (simp_all add: checkLengths_None_iff go_consts_def family_sizes)
  have s: "SyscallConn_err no_ulp_socket = None" "Control_err no_ulp_socket = None"
      "SyscallConn_err bind_fails_socket = None" "Control_err bind_fails_socket = None"
      "setsockopt no_ulp_socket ulp_bind = Some (Errno 2)"
      "setsockopt bind_fails_socket ulp_bind = Some (Errno 2)"
    by (simp_all add: socket_defs)
  have o: "\<And>blob. setsockopt no_ulp_socket (SetsockoptString SOL_TLS TLS_TX blob) =
                   Some (Errno 92)"
      "\<And>blob. setsockopt bind_fails_socket (SetsockoptString SOL_TLS TLS_TX blob) = None"
    by (simp_all add: socket_defs)
  show ?thesis
    by (simp add: ktlsEnable_AES128_bind_fails [OF a] ktlsEnable_bind_failure_returned [OF _ b]
          ktlsEnable_bind_failure_returned [OF _ c] s o)
qed

subsection \<open>The release string\<close>

text \<open>What \<open>init\<close> cuts out of some release strings. On 5.15.0-91-generic and
  5.4.0-42-generic it reads the version. Where the minor number begins with a digit
  of the major number, \<open>TrimLeft\<close> eats into it, since it drops bytes of a set and not a
  prefix: of 5.5.15-200.fc31.x86\_64 it leaves 15-200.fc31.x86\_64, whose part before
  the dot is no number; of 5.5.5-200.fc31.x86\_64 it leaves -200.fc31.x86\_64, read as
  minus 200; of 5.5.13.1-custom it leaves 13.1-custom, read as 13; of 6.6.30-generic
  it leaves 30-generic, which has no dot, so the second slice panics.\<close>

lemmas release_defs =
  probe_release_def Index_def TrimLeft_def Atoi_def isDigit_def Utsname_Release_def Let_def

lemma Atoi_examples:
  "Atoi ''15'' = Some 15" "Atoi ''-200'' = Some (- 200)" "Atoi ''+7'' = Some 7"
  "Atoi ''15-200'' = None" "Atoi '''' = None" "Atoi ''-'' = None" "Atoi ''007'' = Some 7"
  "Atoi ''9223372036854775807'' = Some 9223372036854775807"
  "Atoi ''9223372036854775808'' = None"
  "Atoi ''-9223372036854775808'' = Some (- 9223372036854775808)"
  by (simp_all add: Atoi_def isDigit_def Let_def)

lemma probe_release_examples:
  "probe_release (Some (Utsname_Release ''5.15.0-91-generic'')) = Release 5 15"
  "probe_release (Some (Utsname_Release ''5.4.0-42-generic'')) = Release 5 4"
  "probe_release (Some (Utsname_Release ''5.5.15-200.fc31.x86_64'')) = AtoiFails"
  "probe_release (Some (Utsname_Release ''5.5.5-200.fc31.x86_64'')) = Release 5 (- 200)"
  "probe_release (Some (Utsname_Release ''5.5.13.1-custom'')) = Release 5 13"
  "probe_release (Some (Utsname_Release ''6.6.30-generic'')) = SlicePanics"
  "probe_release (Some (Utsname_Release ''6.6.0'')) = SlicePanics"
  by (simp_all add: release_defs)

lemma probe_release_None: "probe_release None = UnameFails"
  by (simp add: probe_release_def)

subsection \<open>Claims C3 and C9\<close>

lemma version_thresholds_flags:
  "kTLSSupport (version_thresholds major minor G0) = kTLSSupport G0"
  "kTLSSupportTX (version_thresholds major minor G0) =
     (kTLSSupportTX G0 \<or> (major = 4 \<and> minor \<ge> 13) \<or> major > 4)"
  "kTLSSupportAESGCM128 (version_thresholds major minor G0) =
     (kTLSSupportAESGCM128 G0 \<or> (major = 4 \<and> minor \<ge> 13) \<or> major > 4)"
  "kTLSSupportRX (version_thresholds major minor G0) =
     (kTLSSupportRX G0 \<or> (major = 4 \<and> minor \<ge> 17) \<or> major > 4)"
  "kTLSSupportAESGCM256 (version_thresholds major minor G0) =
     (kTLSSupportAESGCM256 G0 \<or> (major = 5 \<and> minor \<ge> 1) \<or> major > 5)"
  "kTLSSupportTLS13TX (version_thresholds major minor G0) =
     (kTLSSupportTLS13TX G0 \<or> (major = 5 \<and> minor \<ge> 1) \<or> major > 5)"
  "kTLSSupportCHACHA20POLY1305 (version_thresholds major minor G0) =
     (kTLSSupportCHACHA20POLY1305 G0 \<or> (major = 5 \<and> minor \<ge> 11) \<or> major > 5)"
  "kTLSSupportZEROCOPY (version_thresholds major minor G0) =
     (kTLSSupportZEROCOPY G0 \<or> (major = 5 \<and> minor \<ge> 19) \<or> major > 5)"
  "kTLSSupportTLS13RX (version_thresholds major minor G0) = (kTLSSupportTLS13RX G0 \<or> major > 5)"
  "kTLSSupportNOPAD (version_thresholds major minor G0) = (kTLSSupportNOPAD G0 \<or> major > 5)"
  by (auto simp add: version_thresholds_def Let_def)

lemma no_support_flags:
  "\<not> kTLSSupport no_support" "\<not> kTLSSupportTX no_support" "\<not> kTLSSupportRX no_support"
  "\<not> kTLSSupportAESGCM128 no_support" "\<not> kTLSSupportAESGCM256 no_support"
  "\<not> kTLSSupportCHACHA20POLY1305 no_support" "\<not> kTLSSupportTLS13TX no_support"
  "\<not> kTLSSupportTLS13RX no_support" "\<not> kTLSSupportZEROCOPY no_support"
  "\<not> kTLSSupportNOPAD no_support"
  by (simp_all add: no_support_def)

lemma init_Release:
  "init module_present kTLSEnabled (Release major minor) =
     Some (if module_present \<and> kTLSEnabled
           then version_thresholds major minor (no_support \<lparr> kTLSSupport := True \<rparr>)
           else no_support)"
  by (simp add: init_def Let_def no_support_def)

text \<open>
  The six comparisons by themselves are the table: whenever the cut yields the pair
  \<open>(major, minor)\<close> (the TLS module being present and the policy switch on), TX and
  AES-128-GCM are granted exactly from 4.13, RX from 4.17, AES-256-GCM and TLS 1.3 TX
  from 5.1, ChaCha20-Poly1305 from 5.11, zero-copy from 5.19, and TLS 1.3 RX and no-pad
  exactly when \<open>major\<close> is at least 6. This is a statement about the pair the cut
  yields, which need not be the version of the kernel.
\<close>

lemma thresholds_on_parsed_pair:
  "\<exists>G. init True True (Release major minor) = Some G \<and>
     kTLSSupport G \<and>
     (kTLSSupportTX G \<longleftrightarrow> version_at_least (major, minor) (4, 13)) \<and>
     (kTLSSupportAESGCM128 G \<longleftrightarrow> version_at_least (major, minor) (4, 13)) \<and>
     (kTLSSupportRX G \<longleftrightarrow> version_at_least (major, minor) (4, 17)) \<and>
     (kTLSSupportAESGCM256 G \<longleftrightarrow> version_at_least (major, minor) (5, 1)) \<and>
     (kTLSSupportTLS13TX G \<longleftrightarrow> version_at_least (major, minor) (5, 1)) \<and>
     (kTLSSupportCHACHA20POLY1305 G \<longleftrightarrow> version_at_least (major, minor) (5, 11)) \<and>
     (kTLSSupportZEROCOPY G \<longleftrightarrow> version_at_least (major, minor) (5, 19)) \<and>
     (kTLSSupportTLS13RX G \<longleftrightarrow> major \<ge> 6) \<and>
     (kTLSSupportNOPAD G \<longleftrightarrow> major \<ge> 6)"
proof -
  let ?G = "version_thresholds major minor (no_support \<lparr> kTLSSupport := True \<rparr>)"
  have "init True True (Release major minor) = Some ?G"
    by (simp add: init_Release)
  moreover have "kTLSSupport ?G"
    by (simp add: version_thresholds_flags)
  moreover have "kTLSSupportTX ?G \<longleftrightarrow> version_at_least (major, minor) (4, 13)"
    "kTLSSupportAESGCM128 ?G \<longleftrightarrow> version_at_least (major, minor) (4, 13)"
    "kTLSSupportRX ?G \<longleftrightarrow> version_at_least (major, minor) (4, 17)"
    "kTLSSupportAESGCM256 ?G \<longleftrightarrow> version_at_least (major, minor) (5, 1)"
    "kTLSSupportTLS13TX ?G \<longleftrightarrow> version_at_least (major, minor) (5, 1)"
    "kTLSSupportCHACHA20POLY1305 ?G \<longleftrightarrow> version_at_least (major, minor) (5, 11)"
    "kTLSSupportZEROCOPY ?G \<longleftrightarrow> version_at_least (major, minor) (5, 19)"
    by (auto simp add: version_thresholds_flags no_support_flags version_at_least_def)
  moreover have "kTLSSupportTLS13RX ?G \<longleftrightarrow> major \<ge> 6" "kTLSSupportNOPAD ?G \<longleftrightarrow> major \<ge> 6"
    by (auto simp add: version_thresholds_flags no_support_flags)
  ultimately show ?thesis by blast
qed

text \<open>
  C3. The probe does not grant by the table for every kernel version, because it
  misreads the release string: \<open>strings.TrimLeft(release, majorRelease + ".")\<close> drops
  leading bytes of the set of the major number's digits and the dot, not the prefix.
  With the TLS module present and the policy switch on:
  on the 5.5 kernel 5.5.15-200.fc31.x86\_64 the minor number fails to parse and nothing
  beyond \<open>kTLSSupport\<close> is granted, where the table grants TX, RX, AES-128-GCM,
  AES-256-GCM and TLS 1.3 TX;
  on the 5.5 kernel 5.5.5-200.fc31.x86\_64 the minor number is read as minus 200 and
  AES-256-GCM and TLS 1.3 TX (from 5.1) are withheld;
  on the 5.5 kernel 5.5.13.1-custom the minor number is read as 13 and
  ChaCha20-Poly1305 (from 5.11) is granted;
  on the 6.6 kernel 6.6.30-generic the probe panics and grants nothing at all.
\<close>

theorem probe_misreads_release:
  "init True True (probe_release (Some (Utsname_Release ''5.5.15-200.fc31.x86_64''))) =
     Some (no_support \<lparr> kTLSSupport := True \<rparr>)
   \<and> init True True (probe_release (Some (Utsname_Release ''5.5.5-200.fc31.x86_64''))) =
     Some (no_support \<lparr> kTLSSupport := True, kTLSSupportTX := True, kTLSSupportRX := True,
             kTLSSupportAESGCM128 := True \<rparr>)
   \<and> init True True (probe_release (Some (Utsname_Release ''5.5.13.1-custom''))) =
     Some (no_support \<lparr> kTLSSupport := True, kTLSSupportTX := True, kTLSSupportRX := True,
             kTLSSupportAESGCM128 := True, kTLSSupportAESGCM256 := True,
             kTLSSupportCHACHA20POLY1305 := True, kTLSSupportTLS13TX := True \<rparr>)
   \<and> init True True (probe_release (Some (Utsname_Release ''6.6.30-generic''))) = None"
  by (simp add: release_defs init_def version_thresholds_def no_support_def)

text \<open>
  The comparisons by themselves are monotonic in the pair they are given: of two
  pairs, ordered by \<open>major\<close> then \<open>minor\<close>, in the same environment, the higher is
  granted every capability flag that the lower is granted.
\<close>

lemma thresholds_monotone_on_parsed_pair:
  assumes "version_below (major1, minor1) (major2, minor2)"
    and "init module_present kTLSEnabled (Release major1 minor1) = Some G1"
    and "init module_present kTLSEnabled (Release major2 minor2) = Some G2"
  shows "(kTLSSupport G1 \<longrightarrow> kTLSSupport G2) \<and>
     (kTLSSupportTX G1 \<longrightarrow> kTLSSupportTX G2) \<and>
     (kTLSSupportRX G1 \<longrightarrow> kTLSSupportRX G2) \<and>
     (kTLSSupportAESGCM128 G1 \<longrightarrow> kTLSSupportAESGCM128 G2) \<and>
     (kTLSSupportAESGCM256 G1 \<longrightarrow> kTLSSupportAESGCM256 G2) \<and>
     (kTLSSupportCHACHA20POLY1305 G1 \<longrightarrow> kTLSSupportCHACHA20POLY1305 G2) \<and>
     (kTLSSupportTLS13TX G1 \<longrightarrow> kTLSSupportTLS13TX G2) \<and>
     (kTLSSupportTLS13RX G1 \<longrightarrow> kTLSSupportTLS13RX G2) \<and>
     (kTLSSupportZEROCOPY G1 \<longrightarrow> kTLSSupportZEROCOPY G2) \<and>
     (kTLSSupportNOPAD G1 \<longrightarrow> kTLSSupportNOPAD G2)"
proof -
  have below: "major1 < major2 \<or> (major1 = major2 \<and> minor1 < minor2)"
    using assms(1) by (simp add: version_below_def)
  have G1: "G1 = (if module_present \<and> kTLSEnabled
           then version_thresholds major1 minor1 (no_support \<lparr> kTLSSupport := True \<rparr>)
           else no_support)"
    and G2: "G2 = (if module_present \<and> kTLSEnabled
           then version_thresholds major2 minor2 (no_support \<lparr> kTLSSupport := True \<rparr>)
           else no_support)"
    using assms(2,3) by (simp_all add: init_Release)
  show ?thesis
  proof (cases "module_present \<and> kTLSEnabled")
    case True
    have "kTLSSupport G1 \<longrightarrow> kTLSSupport G2"
      using True by (simp add: G1 G2 version_thresholds_flags)
    moreover have "kTLSSupportTX G1 \<longrightarrow> kTLSSupportTX G2"
      using below True by (auto simp add: G1 G2 version_thresholds_flags no_support_flags)
    moreover have "kTLSSupportRX G1 \<longrightarrow> kTLSSupportRX G2"
      using below True by (auto simp add: G1 G2 version_thresholds_flags no_support_flags)
    moreover have "kTLSSupportAESGCM128 G1 \<longrightarrow> kTLSSupportAESGCM128 G2"
      using below True by (auto simp add: G1 G2 version_thresholds_flags no_support_flags)
    moreover have "kTLSSupportAESGCM256 G1 \<longrightarrow> kTLSSupportAESGCM256 G2"
      using below True by (auto simp add: G1 G2 version_thresholds_flags no_support_flags)
    moreover have "kTLSSupportCHACHA20POLY1305 G1 \<longrightarrow> kTLSSupportCHACHA20POLY1305 G2"
      using below True by (auto simp add: G1 G2 version_thresholds_flags no_support_flags)
    moreover have "kTLSSupportTLS13TX G1 \<longrightarrow> kTLSSupportTLS13TX G2"
      using below True by (auto simp add: G1 G2 version_thresholds_flags no_support_flags)
    moreover have "kTLSSupportTLS13RX G1 \<longrightarrow> kTLSSupportTLS13RX G2"
      using below True by (auto simp add: G1 G2 version_thresholds_flags no_support_flags)
    moreover have "kTLSSupportZEROCOPY G1 \<longrightarrow> kTLSSupportZEROCOPY G2"
      using below True by (auto simp add: G1 G2 version_thresholds_flags no_support_flags)
    moreover have "kTLSSupportNOPAD G1 \<longrightarrow> kTLSSupportNOPAD G2"
      using below True by (auto simp add: G1 G2 version_thresholds_flags no_support_flags)
    ultimately show ?thesis by blast
  next
    case False
    then have "G1 = no_support" "G2 = no_support"
      using G1 G2 by auto
    then show ?thesis by simp
  qed
qed

text \<open>
  C9. The grants of the probe are not monotonic in the kernel version, for the same
  misreading of the release string. Version 5.4 is below version 5.5; with the TLS
  module present and the policy switch on, the 5.4 kernel 5.4.0-42-generic is read as
  (5, 4) and granted TX, RX, AES-128-GCM, AES-256-GCM and TLS 1.3 TX, while on the
  later 5.5 kernel 5.5.15-200.fc31.x86\_64 the minor number fails to parse and none of
  these is granted.
\<close>

theorem probe_grants_not_monotone:
  "version_below (5, 4) (5, 5)
   \<and> init True True (probe_release (Some (Utsname_Release ''5.4.0-42-generic''))) =
     Some (no_support \<lparr> kTLSSupport := True, kTLSSupportTX := True, kTLSSupportRX := True,
             kTLSSupportAESGCM128 := True, kTLSSupportAESGCM256 := True,
             kTLSSupportTLS13TX := True \<rparr>)
   \<and> init True True (probe_release (Some (Utsname_Release ''5.5.15-200.fc31.x86_64''))) =
     Some (no_support \<lparr> kTLSSupport := True \<rparr>)"
  by (simp add: release_defs init_def version_thresholds_def no_support_def version_below_def)

subsection \<open>Claim C8\<close>

lemma switch_case_labels:
  "switch_case K cipherSuiteID \<noteq> None \<longleftrightarrow> cipherSuiteID \<in> set (case_labels K)"
  by (auto simp add: switch_case_def case_labels_def)

lemma length_case_labels: "length (case_labels K) = 11"
  by (simp add: case_labels_def)

lemma enableKernelTLS_unlisted:
  "switch_case K cipherSuiteID = None \<Longrightarrow>
   enableKernelTLS G K bo c cipherSuiteID inKey outKey inIV outIV = no_activation"
  by (simp add: enableKernelTLS_def)

text \<open>
  C8, as amended. The \<open>switch\<close> of the activation routine recognizes exactly 11
  distinct cipher-suite identifiers (its case labels, which Go requires to be
  distinct): three for AES-128-GCM, three for AES-256-GCM and two for
  ChaCha20-Poly1305 under TLS 1.2, and the three TLS 1.3 suites. For every other
  identifier the activation returns success, makes no socket call and stores
  no cipher marker.
\<close>

theorem recognized_cipher_suites:
  assumes "distinct (case_labels K)"
  shows "card {cipherSuiteID. switch_case K cipherSuiteID \<noteq> None} = 11 \<and>
     (\<forall>cipherSuiteID. switch_case K cipherSuiteID = None \<longrightarrow>
        enableKernelTLS G K bo c cipherSuiteID inKey outKey inIV outIV =
          \<lparr> returned = None, calls = [], clientCipher = False, serverCipher = False \<rparr>)"
proof -
  have "{cipherSuiteID. switch_case K cipherSuiteID \<noteq> None} = set (case_labels K)"
    by (rule set_eqI) (simp only: mem_Collect_eq switch_case_labels)
  then have "card {cipherSuiteID. switch_case K cipherSuiteID \<noteq> None} = 11"
    using assms by (simp add: distinct_card length_case_labels)
  then show ?thesis
    by (simp add: enableKernelTLS_unlisted no_activation_def)
qed

text \<open>
  The claim as stated fails: with the identifiers Go gives the suites, eleven
  different values, not nine, select a case of the \<open>switch\<close>.
\<close>

theorem eleven_suites_counterexample:
  "distinct [0xc02f, 0xc02b, 0x009c, 0xc030, 0xc02c, 0x009d, 0xcca8, 0xcca9,
             0x1301, 0x1302, 0x1303 :: uint16]
   \<and> map (switch_case go_consts)
        [0xc02f, 0xc02b, 0x009c, 0xc030, 0xc02c, 0x009d, 0xcca8, 0xcca9,
         0x1301, 0x1302, 0x1303] =
      [Some AES_128_GCM_TLS12, Some AES_128_GCM_TLS12, Some AES_128_GCM_TLS12,
       Some AES_256_GCM_TLS12, Some AES_256_GCM_TLS12, Some AES_256_GCM_TLS12,
       Some CHACHA20_POLY1305_TLS12, Some CHACHA20_POLY1305_TLS12,
       Some AES_128_GCM_TLS13, Some AES_256_GCM_TLS13, Some CHACHA20_POLY1305_TLS13]"
  by (simp add: switch_case_def go_consts_def)

theorem recognized_cipher_suites_witness:
  "distinct (case_labels go_consts) \<and>
   card {cipherSuiteID. switch_case go_consts cipherSuiteID \<noteq> None} = 11 \<and>
   switch_case go_consts 0x0005 = None \<and>
   enableKernelTLS (the (init True True (Release 6 1))) go_consts LittleEndian
       \<lparr> conn = Some quiet_socket, out_seq = replicate 8 0, in_seq = replicate 8 0,
         Read_events = [] \<rparr>
       0x0005 (replicate 16 1) (replicate 16 2) (replicate 4 3) (replicate 4 4) =
     \<lparr> returned = None, calls = [], clientCipher = False, serverCipher = False \<rparr>"
proof -
  have d: "distinct (case_labels go_consts)"
    by (simp add: case_labels_def go_consts_def)
  have n: "switch_case go_consts 0x0005 = None"
    by (simp add: switch_case_def go_consts_def)
  show ?thesis
    using recognized_cipher_suites [OF d, of "the (init True True (Release 6 1))" LittleEndian
      "\<lparr> conn = Some quiet_socket, out_seq = replicate 8 0, in_seq = replicate 8 0,
         Read_events = [] \<rparr>" "replicate 16 1" "replicate 16 2" "replicate 4 3" "replicate 4 4"]
      d n
    by simp
qed

subsection \<open>A full activation\<close>

text \<open>On a 6.1 kernel, TLS 1.3 with AES-128-GCM over a TCP socket that accepts
  everything: the ULP bind, the TX configuration, zero-copy, the RX configuration with
  the bind skipped, and no-pad, in this order, and both cipher markers stored.\<close>

lemma full_activation_example:
  "enableKernelTLS (the (init True True (Release 6 1))) go_consts LittleEndian
       \<lparr> conn = Some quiet_socket, out_seq = replicate 8 0, in_seq = replicate 8 0,
         Read_events = [] \<rparr>
       0x1301 (replicate 16 1) (replicate 16 2) (replicate 12 3) (replicate 12 4) =
     \<lparr> returned = None,
       calls =
         [ulp_bind,
          SetsockoptString SOL_TLS TLS_TX (cryptoInfo_bytes LittleEndian
            (cryptoInfo AES_GCM_128 0x0304 (replicate 16 2) (replicate 12 4) (replicate 8 0))),
          SetsockoptInt SOL_TLS TLS_TX_ZEROCOPY_RO 1,
          SetsockoptString SOL_TLS TLS_RX (cryptoInfo_bytes LittleEndian
            (cryptoInfo AES_GCM_128 0x0304 (replicate 16 1) (replicate 12 3) (replicate 8 0))),
          SetsockoptInt SOL_TLS TLS_RX_EXPECT_NO_PAD 1],
       clientCipher = True, serverCipher = True \<rparr>"
proof -
  have chk: "checkLengths AES_GCM_128 go_consts 0x0304 (replicate 16 2) (replicate 12 4)
               (replicate 8 0) = None"
      "checkLengths AES_GCM_128 go_consts 0x0304 (replicate 16 1) (replicate 12 3)
               (replicate 8 0) = None"
    by (simp_all add: checkLengths_None_iff go_consts_def family_sizes)
  have q: "SyscallConn_err quiet_socket = None" "Control_err quiet_socket = None"
      "\<And>call. setsockopt quiet_socket call = None"
    by (simp_all add: quiet_socket_def)
  have e: "\<And>opt skip key iv seq. ktlsEnableAES128GCM go_consts LittleEndian quiet_socket
              0x0304 opt skip key iv seq =
            ktlsEnable AES_GCM_128 go_consts LittleEndian quiet_socket 0x0304 opt skip key iv seq"
    by (simp add: ktlsEnable_def)
  have sw: "switch_case go_consts 0x1301 = Some AES_128_GCM_TLS13"
    by (simp add: switch_case_def go_consts_def)
  have v: "VersionTLS13 go_consts = 0x0304"
    by (simp add: go_consts_def)
  let ?G = "the (init True True (Release 6 1))"
  have G: "kTLSSupport ?G" "kTLSSupportTX ?G" "kTLSSupportRX ?G" "kTLSSupportAESGCM128 ?G"
    "kTLSSupportTLS13TX ?G" "kTLSSupportTLS13RX ?G" "kTLSSupportZEROCOPY ?G"
    "kTLSSupportNOPAD ?G"
    by (simp_all add: init_Release version_thresholds_flags)
  have tx: "enableAES_TX ?G \<lparr> conn = Some quiet_socket, out_seq = replicate 8 0,
              in_seq = replicate 8 0, Read_events = [] \<rparr> 0x0304
              (ktlsEnableAES128GCM go_consts LittleEndian) 16 (replicate 16 2) (replicate 12 4) =
            (no_activation \<lparr> calls := [ulp_bind,
               SetsockoptString SOL_TLS TLS_TX (cryptoInfo_bytes LittleEndian
                 (cryptoInfo AES_GCM_128 0x0304 (replicate 16 2) (replicate 12 4)
                    (replicate 8 0))),
               SetsockoptInt SOL_TLS TLS_TX_ZEROCOPY_RO 1], clientCipher := True \<rparr>, True)"
    by (simp add: enableAES_TX_def e ktlsEnable_configures [OF chk(1)] q G
          ktlsEnableTxZerocopySendfile_def setsockoptIntOption_def)
  show ?thesis
    by (simp add: enableKernelTLS_def sw v G ktlsEnableAES_def tx enableAES_RX_def e
          ktlsEnable_configures [OF chk(2)] q ktlsEnableRxExpectNoPad_def
          setsockoptIntOption_def no_activation_def)
qed

subsection \<open>Claims C2 and C10\<close>

lemma recvmsg_loop_bounds:
  "recvmsg_loop evs n err cm b = Returns (n', err', err0, cm', b') \<Longrightarrow>
   n \<le> int (length b) \<Longrightarrow> n' \<le> int (length b') \<and> length b' = length b"
proof (induction evs arbitrary: n err)
  case Nil
  then show ?case by simp
next
  case (Cons ev evs)
  show ?case
  proof (cases ev)
    case (Recvmsg payload level type d)
    with Cons.prems show ?thesis
      by (auto simp add: Let_def)
  next
    case (RecvmsgFails e)
    show ?thesis
    proof (cases "e = EAGAIN")
      case True
      with Cons.prems RecvmsgFails
      have "recvmsg_loop evs (- 1) (Some e) cm b = Returns (n', err', err0, cm', b')"
        by simp
      from Cons.IH [OF this] show ?thesis by simp
    next
      case False
      with Cons.prems RecvmsgFails show ?thesis by auto
    qed
  next
    case (RecvWaitFails e)
    with Cons.prems show ?thesis by auto
  qed
qed

lemma recvmsg_loop_no_panic: "recvmsg_loop evs n err cm b \<noteq> Panics"
proof (induction evs arbitrary: n err)
  case Nil
  then show ?case by simp
next
  case (Cons ev evs)
  then show ?case by (cases ev) (simp_all add: Let_def)
qed

lemma ktlsReadRecord_bounds:
  assumes "ktlsReadRecord c b = Returns (typ, n, err, b')"
  shows "n \<le> int (length b') \<and> length b' = length b \<and> b \<noteq> []"
proof -
  from assms have ne: "b \<noteq> []"
    by (auto simp add: ktlsReadRecord_def split: if_splits)
  show ?thesis
  proof (cases "SyscallConn_err c")
    case (Some e)
    with assms ne show ?thesis by (auto simp add: ktlsReadRecord_def)
  next
    case None
    let ?r = "recvmsg_loop (recvmsg_events c) 0 None
                \<lparr> cmsg_Level = 0, cmsg_Type = 0, cmsg_data = 0 \<rparr> b"
    from assms ne None obtain n0 e0 e1 cm0 where r: "?r = Returns (n0, e0, e1, cm0, b')"
      and n: "n = 0 \<or> n = n0"
      by (auto simp add: ktlsReadRecord_def Let_def split: outcome.splits if_splits)
    from recvmsg_loop_bounds [OF r] have "n0 \<le> int (length b')" "length b' = length b"
      by simp_all
    with n ne show ?thesis by auto
  qed
qed

lemma ktlsReadRecord_delivers:
  assumes "SyscallConn_err c = None"
    and "recvmsg_events c = Recvmsg payload SOL_TLS TLS_GET_RECORD_TYPE tag # evs"
    and "payload \<noteq> []" and "length payload \<le> length b"
  shows "ktlsReadRecord c b =
           Returns (tag, int (length payload), None, payload @ drop (length payload) b)"
proof -
  from assms(3,4) have "b \<noteq> []" by auto
  with assms show ?thesis
    by (simp add: ktlsReadRecord_def Let_def)
qed

text \<open>
  C2. Let the tagged read \<open>ktlsReadRecord\<close> yield record type \<open>typ\<close> and \<open>n\<close> payload
  bytes without error, leaving the buffer as \<open>b'\<close>. If \<open>typ\<close> is alert and the
  payload's second byte (there is one: \<open>n\<close> is at least 2) is the close-notify code,
  \<open>ktlsReadDataFromRecord\<close> returns \<open>(0, io.EOF)\<close>; if \<open>typ\<close> is alert with any other
  second byte, it returns the unsupported-alert error; if \<open>typ\<close> is application data,
  it returns \<open>(n, nil)\<close>; for any other record type it returns the
  unsupported-record-type error. In every case the buffer is left as the tagged read
  left it.
\<close>

theorem read_classification:
  assumes "recordTypeAlert K \<noteq> recordTypeApplicationData K"
    and "ktlsReadRecord c b = Returns (typ, n, None, b')"
  shows
    "(typ = recordTypeAlert K \<and> 2 \<le> n \<and> b' ! 1 = alertCloseNotify K \<longrightarrow>
        ktlsReadDataFromRecord K c b = Returns (0, Some EOF, b'))
   \<and> (typ = recordTypeAlert K \<and> 2 \<le> n \<and> b' ! 1 \<noteq> alertCloseNotify K \<longrightarrow>
        ktlsReadDataFromRecord K c b = Returns (0, Some (UnsupportedAlertType (b' ! 0)), b'))
   \<and> (typ = recordTypeApplicationData K \<longrightarrow>
        ktlsReadDataFromRecord K c b = Returns (n, None, b'))
   \<and> (typ \<noteq> recordTypeAlert K \<and> typ \<noteq> recordTypeApplicationData K \<longrightarrow>
        ktlsReadDataFromRecord K c b = Returns (0, Some (UnsupportedRecordType typ), b'))"
proof -
  from ktlsReadRecord_bounds [OF assms(2)] have len: "n \<le> int (length b')"
    by simp
  show ?thesis
    using assms len by (auto simp add: ktlsReadDataFromRecord_def)
qed


theorem read_classification_witness:
  "ktlsReadDataFromRecord go_consts
      (quiet_socket \<lparr> recvmsg_events := [Recvmsg [1, 0] SOL_TLS TLS_GET_RECORD_TYPE 21] \<rparr>)
      [255, 255, 255, 255] = Returns (0, Some EOF, [1, 0, 255, 255])
   \<and> ktlsReadDataFromRecord go_consts
      (quiet_socket \<lparr> recvmsg_events := [Recvmsg [2, 40] SOL_TLS TLS_GET_RECORD_TYPE 21] \<rparr>)
      [255, 255, 255, 255] = Returns (0, Some (UnsupportedAlertType 2), [2, 40, 255, 255])
   \<and> ktlsReadDataFromRecord go_consts
      (quiet_socket \<lparr> recvmsg_events := [Recvmsg [7, 8, 9] SOL_TLS TLS_GET_RECORD_TYPE 23] \<rparr>)
      [255, 255, 255, 255] = Returns (3, None, [7, 8, 9, 255])
   \<and> ktlsReadDataFromRecord go_consts
      (quiet_socket \<lparr> recvmsg_events := [Recvmsg [7, 8, 9] SOL_TLS TLS_GET_RECORD_TYPE 22] \<rparr>)
      [255, 255, 255, 255] = Returns (0, Some (UnsupportedRecordType 22), [7, 8, 9, 255])"
proof -
  have K: "recordTypeAlert go_consts \<noteq> recordTypeApplicationData go_consts"
    by (simp add: go_consts_def)
  have r: "\<And>payload typ. payload \<noteq> [] \<Longrightarrow> length payload \<le> 4 \<Longrightarrow>
     ktlsReadRecord
       (quiet_socket \<lparr> recvmsg_events := [Recvmsg payload SOL_TLS TLS_GET_RECORD_TYPE typ] \<rparr>)
       [255, 255, 255, 255] =
     Returns (typ, int (length payload), None, payload @ drop (length payload) [255, 255, 255, 255])"
    by (rule ktlsReadRecord_delivers) (simp_all add: quiet_socket_def)
  show ?thesis
    using read_classification [OF K r [of "[1, 0]" 21]]
      read_classification [OF K r [of "[2, 40]" 21]]
      read_classification [OF K r [of "[7, 8, 9]" 23]]
      read_classification [OF K r [of "[7, 8, 9]" 22]]
    by (simp add: go_consts_def)
qed

text \<open>
  C10. If the tagged read yields record type alert with fewer than 2 payload bytes,
  \<open>ktlsReadDataFromRecord\<close> returns the "alert payload too short" error, whatever the
  buffer holds at index 1. The index is read only when at least 2 payload bytes were
  received, and these lie inside the buffer: on a buffer that is not empty the call
  never panics.
\<close>

theorem short_alert_rejected:
  "(ktlsReadRecord c b = Returns (recordTypeAlert K, n, None, b') \<and> n < 2 \<longrightarrow>
      ktlsReadDataFromRecord K c b = Returns (0, Some AlertPayloadTooShort, b'))
   \<and> (ktlsReadRecord c b = Returns (recordTypeAlert K, n, None, b') \<and> 2 \<le> n \<longrightarrow>
      2 \<le> length b')
   \<and> (b \<noteq> [] \<longrightarrow> ktlsReadDataFromRecord K c b \<noteq> Panics)"
proof (intro conjI impI)
  assume "ktlsReadRecord c b = Returns (recordTypeAlert K, n, None, b') \<and> n < 2"
  then show "ktlsReadDataFromRecord K c b = Returns (0, Some AlertPayloadTooShort, b')"
    by (simp add: ktlsReadDataFromRecord_def)
next
  assume "ktlsReadRecord c b = Returns (recordTypeAlert K, n, None, b') \<and> 2 \<le> n"
  then show "2 \<le> length b'"
    using ktlsReadRecord_bounds [of c b "recordTypeAlert K" n None b'] by simp
next
  assume ne: "b \<noteq> []"
  show "ktlsReadDataFromRecord K c b \<noteq> Panics"
  proof (cases "ktlsReadRecord c b")
    case (Returns r)
    obtain tag n err b' where r: "r = (tag, n, err, b')"
      by (cases r) auto
    from ktlsReadRecord_bounds [of c b tag n err b'] Returns r
    have "n \<le> int (length b')" by simp
    with Returns r show ?thesis
      by (auto simp add: ktlsReadDataFromRecord_def)
  next
    case Panics
    with ne show ?thesis
      by (auto simp add: ktlsReadRecord_def recvmsg_loop_no_panic
            split: option.splits outcome.splits if_splits prod.splits)
  next
    case Blocks
    then show ?thesis by (simp add: ktlsReadDataFromRecord_def)
  qed
qed

theorem short_alert_rejected_witness:
  "ktlsReadDataFromRecord go_consts
      (quiet_socket \<lparr> recvmsg_events := [Recvmsg [1] SOL_TLS TLS_GET_RECORD_TYPE 21] \<rparr>)
      [255, 0, 255, 255] = Returns (0, Some AlertPayloadTooShort, [1, 0, 255, 255])
   \<and> ktlsReadDataFromRecord go_consts
      (quiet_socket \<lparr> recvmsg_events := [Recvmsg [1] SOL_TLS TLS_GET_RECORD_TYPE 21] \<rparr>)
      [255, 0, 255, 255] \<noteq> Panics"
proof -
  have r: "ktlsReadRecord
       (quiet_socket \<lparr> recvmsg_events := [Recvmsg [1] SOL_TLS TLS_GET_RECORD_TYPE 21] \<rparr>)
       [255, 0, 255, 255] = Returns (recordTypeAlert go_consts, 1, None, [1, 0, 255, 255])"
    by (subst ktlsReadRecord_delivers [where payload = "[1]" and tag = 21 and evs = "[]"])
       (simp_all add: quiet_socket_def go_consts_def)
  show ?thesis
    using short_alert_rejected [of
        "quiet_socket \<lparr> recvmsg_events := [Recvmsg [1] SOL_TLS TLS_GET_RECORD_TYPE 21] \<rparr>"
        "[255, 0, 255, 255]" go_consts 1 "[1, 0, 255, 255]"] r
    by simp
qed

subsection \<open>Claim C7\<close>

lemma wrap64_id: "- (2 ^ 63) \<le> x \<Longrightarrow> x < 2 ^ 63 \<Longrightarrow> wrap64 x = x"
  by (simp add: wrap64_def)

lemma wrap64_overflow: "2 ^ 63 \<le> x \<Longrightarrow> x < 2 ^ 64 \<Longrightarrow> wrap64 x < 0"
proof -
  assume a: "2 ^ 63 \<le> x" "x < 2 ^ 64"
  have "(x + 2 ^ 63) mod 2 ^ 64 = x + 2 ^ 63 - 2 ^ 64"
    using a by (simp add: mod_pos_geq)
  then show ?thesis using a by (simp add: wrap64_def)
qed

lemma patch_length:
  "s + length g \<le> length xs \<Longrightarrow> length (take s xs @ g @ drop (s + length g) xs) = length xs"
  by simp

lemma patch_take:
  "s + length g \<le> length xs \<Longrightarrow>
   take (s + length g) (take s xs @ g @ drop (s + length g) xs) = take s xs @ g"
  by simp

lemma patch_drop:
  "s + length g \<le> length xs \<Longrightarrow>
   drop (s + length g + k) (take s xs @ g @ drop (s + length g) xs) = drop (s + length g + k) xs"
  by (simp add: add.commute)


lemma readTurn_negative_end:
  "0 \<le> start \<Longrightarrow> end0 < 0 \<Longrightarrow> 0 < remain \<Longrightarrow>
   readTurn (Read data err) bytes remain start end0 = Inl Panics"
  by (simp add: readTurn_def Let_def)

lemma readTurn_unfold:
  "readTurn (Read data err) bytes remain start end0 =
    (if start < 0 \<or> min end0 remain < start \<or> int (length bytes) < min end0 remain
     then Inl Panics
     else if err \<noteq> None then
       Inl (Returns (wrap64 (start + int (length (take (nat (min end0 remain - start)) data))),
              err,
              take (nat start) bytes @ take (nat (min end0 remain - start)) data @
              drop (nat (start + int (length (take (nat (min end0 remain - start)) data))))
                bytes))
     else if wrap64 (start + int (length (take (nat (min end0 remain - start)) data))) \<ge> remain
     then
       Inl (Returns (remain, None,
              take (nat start) bytes @ take (nat (min end0 remain - start)) data @
              drop (nat (start + int (length (take (nat (min end0 remain - start)) data))))
                bytes))
     else
       Inr (take (nat start) bytes @ take (nat (min end0 remain - start)) data @
              drop (nat (start + int (length (take (nat (min end0 remain - start)) data))))
                bytes,
            wrap64 (start + int (length (take (nat (min end0 remain - start)) data))),
            wrap64 (min end0 remain +
                    int (length (take (nat (min end0 remain - start)) data)))))"
proof -
  have "(if end0 > remain then remain else end0) = min end0 remain"
    by simp
  then show ?thesis
    by (simp only: readTurn_def read_event.case Let_def)
qed

lemma readTurn_step:
  fixes data :: "byte list"
  assumes "0 \<le> start" "start < remain" "remain = int (length bytes)" "remain < 2 ^ 63"
    and "end_at_top remain start end0" "0 \<le> end0"
  defines "got \<equiv> take (nat (min maxBufferSize (remain - start))) data"
  defines "bytes1 \<equiv> take (nat start) bytes @ got @ drop (nat start + length got) bytes"
  shows "readTurn (Read data err) bytes remain start end0 =
           (if err \<noteq> None then Inl (Returns (start + int (length got), err, bytes1))
            else if start + int (length got) \<ge> remain then Inl (Returns (remain, None, bytes1))
            else Inr (bytes1, start + int (length got),
                      wrap64 (min end0 remain + int (length got))))"
    and "start + int (length got) \<le> remain"
    and "end_at_top remain (start + int (length got))
           (wrap64 (min end0 remain + int (length got)))"
proof -
  have mb: "0 < maxBufferSize" by (simp add: maxBufferSize_def)
  have e: "end0 = start + maxBufferSize \<or> (end0 \<ge> remain \<and> remain - start \<le> maxBufferSize)"
    using assms(5,6) by (auto simp add: end_at_top_def)
  define end1 where "end1 = (if end0 > remain then remain else end0)"
  have end1: "end1 = min end0 remain" by (simp add: end1_def)
  have w: "end1 - start = min maxBufferSize (remain - start)"
    using e by (auto simp add: end1)
  have b: "start < end1" "end1 \<le> remain"
    using e mb assms(2) by (auto simp add: end1)
  have n: "int (length got) \<le> end1 - start"
    using b by (simp add: got_def w [symmetric])
  from n show le: "start + int (length got) \<le> remain"
    using b by simp
  have wr: "wrap64 (start + int (length got)) = start + int (length got)"
    using le assms(1,4) by (simp add: wrap64_id)
  have dr: "nat (start + int (length got)) = nat start + length got"
    using assms(1) by (simp add: nat_add_distrib)
  have g: "take (nat (min end0 remain - start)) data = got"
    by (simp only: got_def w [symmetric] end1)
  have "\<not> (start < 0 \<or> end1 < start \<or> int (length bytes) < end1)"
    using assms(1,3) b by simp
  then have ok: "\<not> (start < 0 \<or> min end0 remain < start \<or>
                      int (length bytes) < min end0 remain)"
    unfolding end1 .
  show "readTurn (Read data err) bytes remain start end0 =
           (if err \<noteq> None then Inl (Returns (start + int (length got), err, bytes1))
            else if start + int (length got) \<ge> remain then Inl (Returns (remain, None, bytes1))
            else Inr (bytes1, start + int (length got),
                      wrap64 (min end0 remain + int (length got))))"
    unfolding readTurn_unfold g
    by (simp only: ok if_False wr dr bytes1_def)
  show "end_at_top remain (start + int (length got))
           (wrap64 (min end0 remain + int (length got)))"
  proof (cases "end1 + int (length got) < 2 ^ 63")
    case True
    then have "wrap64 (end1 + int (length got)) = end1 + int (length got)"
      using b assms(1) by (simp add: wrap64_id)
    then show ?thesis
      using e b n by (auto simp add: end_at_top_def end1)
  next
    case False
    moreover have "end1 + int (length got) < 2 ^ 64"
      using b n assms(1,4) by simp
    ultimately have "wrap64 (end1 + int (length got)) < 0"
      by (simp add: wrap64_overflow)
    then show ?thesis
      by (simp add: end_at_top_def end1)
  qed
qed


lemma readLoop_stored:
  "readLoop evs bytes remain start end0 = Returns (written, err, bytes') \<Longrightarrow>
   0 \<le> start \<Longrightarrow> start < remain \<Longrightarrow> remain = int (length bytes) \<Longrightarrow>
   remain < 2 ^ 63 \<Longrightarrow> end_at_top remain start end0 \<Longrightarrow>
   bytes' = take (nat start) bytes @ stored_by_reads evs remain start @
            drop (nat start + length (stored_by_reads evs remain start)) bytes \<and>
   written = start + int (length (stored_by_reads evs remain start)) \<and>
   written \<le> remain \<and> (err = None \<longrightarrow> written = remain) \<and>
   (err \<noteq> None \<longrightarrow> (\<exists>data. Read data err \<in> set evs))"
proof (induction evs arbitrary: bytes start end0)
  case Nil
  then show ?case by simp
next
  case (Cons ev evs)
  obtain data e where ev: "ev = Read data e" by (cases ev) auto
  define got where "got = take (nat (min maxBufferSize (remain - start))) data"
  define bytes1 where
    "bytes1 = take (nat start) bytes @ got @ drop (nat start + length got) bytes"
  define start1 where "start1 = start + int (length got)"
  have st: "stored_by_reads (ev # evs) remain start =
              got @ (if e \<noteq> None \<or> start1 \<ge> remain then []
                     else stored_by_reads evs remain start1)"
    by (simp add: ev got_def start1_def)
  show ?case
  proof (cases "end0 < 0")
    case True
    with Cons.prems(1,2,3) ev show ?thesis
      by (simp add: readTurn_negative_end)
  next
    case False
    then have e0: "0 \<le> end0" by simp
    have step:
      "readTurn (Read data e) bytes remain start end0 =
         (if e \<noteq> None then Inl (Returns (start1, e, bytes1))
          else if start1 \<ge> remain then Inl (Returns (remain, None, bytes1))
          else Inr (bytes1, start1, wrap64 (min end0 remain + int (length got))))"
      "start1 \<le> remain"
      "end_at_top remain start1 (wrap64 (min end0 remain + int (length got)))"
      unfolding got_def bytes1_def start1_def
      by (rule readTurn_step [OF Cons.prems(2,3,4,5,6) e0])+
    have le: "start1 \<le> remain" using step(2) .
    have fit: "nat start + length got \<le> length bytes"
      using le Cons.prems(2,4) by (simp add: start1_def)
    show ?thesis
    proof (cases "e \<noteq> None \<or> start1 \<ge> remain")
      case True
      with Cons.prems(1) step(1) ev
      have r: "bytes' = bytes1" "written = start1" "e \<noteq> None \<longrightarrow> err = e"
        "e = None \<longrightarrow> err = None"
        using le by (auto split: if_splits)
      from True have st0: "stored_by_reads (ev # evs) remain start = got"
        by (simp only: st if_True append_Nil2)
      have ex: "err \<noteq> None \<longrightarrow> (\<exists>data. Read data err \<in> set (ev # evs))"
        using r(3,4) ev by (cases e) auto
      have "written \<le> remain" "err = None \<longrightarrow> written = remain"
        using r le True by auto
      with r(1,2) ex show ?thesis
        unfolding st0 by (simp add: bytes1_def start1_def)
    next
      case False
      with Cons.prems(1) step(1) ev
      have rec: "readLoop evs bytes1 remain start1
                   (wrap64 (min end0 remain + int (length got))) =
                 Returns (written, err, bytes')"
        by simp
      have len1: "remain = int (length bytes1)"
        using fit Cons.prems(4) by (simp add: bytes1_def)
      have s1: "0 \<le> start1" "start1 < remain"
        using False Cons.prems(2) by (simp_all add: start1_def)
      note IH = Cons.IH [OF rec s1 len1 Cons.prems(5) step(3)]
      define S where "S = stored_by_reads evs remain start1"
      have n1: "nat start1 = nat start + length got"
        using Cons.prems(2) by (simp add: start1_def nat_add_distrib)
      have "bytes' = take (nat start + length got) bytes1 @ S @
                     drop (nat start + length got + length S) bytes1"
        using IH by (simp add: S_def n1)
      then have b: "bytes' = (take (nat start) bytes @ got) @ S @
                     drop (nat start + length got + length S) bytes"
        unfolding bytes1_def
        by (simp only: patch_take [OF fit] patch_drop [OF fit])
      have w: "written = start1 + int (length S)" "written \<le> remain"
        "err = None \<longrightarrow> written = remain"
        "err \<noteq> None \<longrightarrow> (\<exists>data. Read data err \<in> set evs)"
        using IH by (auto simp add: S_def)
      from False have st': "stored_by_reads (ev # evs) remain start = got @ S"
        by (simp add: st S_def)
      have ex: "err \<noteq> None \<longrightarrow> (\<exists>data. Read data err \<in> set (ev # evs))"
        using w(4) by auto
      show ?thesis
        unfolding st' using b w(1,2,3) ex by (simp add: start1_def add.assoc)
    qed
  qed
qed


lemma drop_take_rest:
  "k \<le> t \<Longrightarrow> t \<le> length xs \<Longrightarrow> drop k (take t xs) @ drop t xs = drop k xs"
proof -
  assume a: "k \<le> t" "t \<le> length xs"
  have "drop k xs = drop k (take t xs @ drop t xs)" by simp
  also have "\<dots> = drop k (take t xs) @ drop t xs"
    using a by (simp del: append_take_drop_id)
  finally show ?thesis by simp
qed

lemma wrap64_positive_sum:
  assumes "0 \<le> a" "a < 2 ^ 63" "0 < b" "b < 2 ^ 63" "0 < wrap64 (a + b)"
  shows "wrap64 (a + b) = a + b"
proof (cases "a + b < 2 ^ 63")
  case True
  with assms(1,3) show ?thesis by (simp add: wrap64_id)
next
  case False
  with assms(2,4) have "wrap64 (a + b) < 0"
    by (simp add: wrap64_overflow)
  with assms(5) show ?thesis by simp
qed

lemma writeToFile_handled:
  assumes "writeToFile c f remain = Returns (written, err, True, f')"
    and "remain < 2 ^ 63" and "position f < 2 ^ 63"
  shows "\<exists>bytes'.
     0 < remain \<and> 0 \<le> position f \<and>
     readLoop (Read_events c)
       (drop (nat (position f))
          (take (nat (position f + remain))
             (contents f @
              replicate (nat (position f + remain) - length (contents f)) 0)))
       remain 0 maxBufferSize = Returns (written, err, bytes') \<and>
     contents f' =
       take (nat (position f))
         (contents f @ replicate (nat (position f + remain) - length (contents f)) 0) @
       bytes' @
       drop (nat (position f + remain))
         (contents f @ replicate (nat (position f + remain) - length (contents f)) 0)"
proof -
  define total where "total = wrap64 (position f + remain)"
  define f1 where "f1 = (if total > int (length (contents f))
       then f \<lparr> contents := contents f @ replicate (nat (total - int (length (contents f)))) 0 \<rparr>
       else f)"
  have w: "writeToFile c f remain =
    (if remain \<le> 0 then Returns (0, None, False, f)
     else if Seek_err f \<noteq> None then Returns (0, None, False, f)
     else if Stat_err f \<noteq> None then Returns (0, None, False, f)
     else if total > int (length (contents f)) \<and> Truncate_err f \<noteq> None
       then Returns (0, None, False, f)
     else if total \<le> 0 \<or> Mmap_err f \<noteq> None then Returns (0, None, False, f1)
     else if position f < 0 \<or> total < position f \<or>
             int (length (take (nat total) (contents f1))) < total then Panics
     else case readLoop (Read_events c)
                 (drop (nat (position f)) (take (nat total) (contents f1))) remain 0
                 maxBufferSize of
            Panics \<Rightarrow> Panics
          | Blocks \<Rightarrow> Blocks
          | Returns (written, err, bytes) \<Rightarrow>
              Returns (written, err, True,
                f1 \<lparr> contents := take (nat (position f)) (contents f1) @ bytes @
                                  drop (nat total) (contents f1) \<rparr>))"
    by (simp only: writeToFile_def Let_def total_def f1_def)
  from assms(1) have pos: "0 < remain" "0 < total" "0 \<le> position f"
    unfolding w by (auto split: if_splits)
  from assms(1) obtain bytes' where
    rl: "readLoop (Read_events c)
           (drop (nat (position f)) (take (nat total) (contents f1))) remain 0 maxBufferSize =
         Returns (written, err, bytes')"
    and f': "f' = f1 \<lparr> contents := take (nat (position f)) (contents f1) @ bytes' @
                                  drop (nat total) (contents f1) \<rparr>"
    unfolding w by (auto split: if_splits outcome.splits)
  have t: "total = position f + remain"
    unfolding total_def using pos assms(2,3)
    by (intro wrap64_positive_sum) (simp_all add: total_def)
  have c1: "contents f1 =
              contents f @ replicate (nat (position f + remain) - length (contents f)) 0"
    by (auto simp add: f1_def t nat_diff_distrib)
  show ?thesis
    using pos rl f' by (auto simp add: c1 t)
qed


text \<open>
  C7, as amended. Let \<open>writeToFile\<close>, called with \<open>remain > 0\<close>, handle the transfer
  (\<open>Seek\<close>, \<open>Stat\<close>, \<open>Truncate\<close> and \<open>Mmap\<close> succeed), and let \<open>old\<close> be the file
  extended with zeros to \<open>offset + remain\<close> bytes where it was shorter. Then the
  file ends as \<open>old\<close> with the bytes the reads stored laid over it from \<open>offset\<close> on:
  it is never shorter than before nor than \<open>offset + remain\<close>, also when a read fails.
  The returned count is the number of bytes the reads stored; it is at most \<open>remain\<close>,
  equal to \<open>remain\<close> when no error is returned, and an error returned is the error of
  a read.
\<close>

theorem writeToFile_extends_and_counts:
  assumes "remain < 2 ^ 63" and "position f < 2 ^ 63"
    and "writeToFile c f remain = Returns (written, err, True, f')"
  shows
    "(let offset = nat (position f);
          old = contents f @ replicate (nat (position f + remain) - length (contents f)) 0;
          stored = stored_by_reads (Read_events c) remain 0
      in contents f' = take offset old @ stored @ drop (offset + length stored) old \<and>
         written = int (length stored) \<and>
         written \<le> remain \<and>
         (err = None \<longrightarrow> written = remain) \<and>
         (err \<noteq> None \<longrightarrow> (\<exists>data. Read data err \<in> set (Read_events c))) \<and>
         length (contents f') = max (length (contents f)) (nat (position f + remain)))"
proof -
  define offset where "offset = nat (position f)"
  define old where
    "old = contents f @ replicate (nat (position f + remain) - length (contents f)) 0"
  define bytes where "bytes = drop offset (take (nat (position f + remain)) old)"
  define stored where "stored = stored_by_reads (Read_events c) remain 0"
  from writeToFile_handled [OF assms(3,1,2), folded old_def, folded offset_def bytes_def]
  obtain bytes' where pos: "0 < remain" "0 \<le> position f"
    and rl: "readLoop (Read_events c) bytes remain 0 maxBufferSize =
               Returns (written, err, bytes')"
    and f': "contents f' = take offset old @ bytes' @ drop (nat (position f + remain)) old"
    unfolding bytes_def by blast
  have total: "nat (position f + remain) = offset + nat remain"
    using pos by (simp add: offset_def nat_add_distrib)
  have lold: "length old = max (length (contents f)) (offset + nat remain)"
    by (simp add: old_def total)
  have lbytes: "remain = int (length bytes)"
    using pos by (simp add: bytes_def lold total)
  have top: "end_at_top remain 0 maxBufferSize"
    by (simp add: end_at_top_def)
  from readLoop_stored [OF rl _ pos(1) lbytes assms(1) top, folded stored_def]
  have b: "bytes' = stored @ drop (length stored) bytes"
    and w: "written = int (length stored)" "written \<le> remain" "err = None \<longrightarrow> written = remain"
      "err \<noteq> None \<longrightarrow> (\<exists>data. Read data err \<in> set (Read_events c))"
    by auto
  have fit: "length stored \<le> nat remain"
    using w(1,2) by simp
  have "drop (length stored) bytes @ drop (offset + nat remain) old =
        drop (offset + length stored) old"
    unfolding bytes_def total drop_drop
    using fit by (subst add.commute) (rule drop_take_rest, simp_all add: lold)
  then have c: "contents f' = take offset old @ stored @ drop (offset + length stored) old"
    by (simp add: f' b total)
  have "length (contents f') = length old"
    using fit by (simp add: c lold)
  then have l: "length (contents f') = max (length (contents f)) (nat (position f + remain))"
    by (simp add: lold total)
  show ?thesis
    unfolding Let_def offset_def [symmetric] old_def [symmetric] stored_def [symmetric]
    using c w l by simp
qed


text \<open>
  The claim as stated fails twice. A read that delivers the last byte together with
  an error (as \<open>Read\<close> may: here \<open>io.EOF\<close>) makes the call return that error with
  \<open>written = remain\<close>, not less. And when \<open>Truncate\<close> fails the call returns unhandled
  with the file still shorter than \<open>offset + remain\<close>, no read having failed.
\<close>

theorem writeToFile_counterexample:
  "writeToFile (reading [Read [97] (Some EOF)]) empty_file 1 =
     Returns (1, Some EOF, True, empty_file \<lparr> contents := [97] \<rparr>)
   \<and> writeToFile (reading []) (empty_file \<lparr> Truncate_err := Some (Errno 28) \<rparr>) 1 =
     Returns (0, None, False, empty_file \<lparr> Truncate_err := Some (Errno 28) \<rparr>)
   \<and> length (contents (empty_file \<lparr> Truncate_err := Some (Errno 28) \<rparr>)) = 0"
  by (simp add: writeToFile_def reading_def empty_file_def wrap64_def maxBufferSize_def
        readTurn_def Let_def)

theorem writeToFile_extends_and_counts_witness:
  "writeToFile (reading [Read [10] None, Read [] (Some (Errno 104))])
      (empty_file \<lparr> contents := [1, 2], position := 1 \<rparr>) 3 =
     Returns (1, Some (Errno 104), True,
       empty_file \<lparr> contents := [1, 10, 0, 0], position := 1 \<rparr>)
   \<and> stored_by_reads [Read [10] None, Read [] (Some (Errno 104))] 3 0 = [10]
   \<and> (let offset = nat (position (empty_file \<lparr> contents := [1, 2], position := 1 \<rparr>));
          old = contents (empty_file \<lparr> contents := [1, 2], position := 1 \<rparr>) @
                replicate (nat (position (empty_file \<lparr> contents := [1, 2], position := 1 \<rparr>)
                                + 3) -
                   length (contents (empty_file \<lparr> contents := [1, 2], position := 1 \<rparr>))) 0;
          stored = stored_by_reads
                     (Read_events (reading [Read [10] None, Read [] (Some (Errno 104))])) 3 0
      in contents (empty_file \<lparr> contents := [1, 10, 0, 0], position := 1 \<rparr>) =
           take offset old @ stored @ drop (offset + length stored) old \<and>
         1 = int (length stored) \<and>
         (1::int) \<le> 3 \<and>
         (Some (Errno 104) = None \<longrightarrow> (1::int) = 3) \<and>
         (Some (Errno 104) \<noteq> None \<longrightarrow>
            (\<exists>data. Read data (Some (Errno 104)) \<in>
               set (Read_events (reading [Read [10] None, Read [] (Some (Errno 104))])))) \<and>
         length (contents (empty_file \<lparr> contents := [1, 10, 0, 0], position := 1 \<rparr>)) =
           max (length (contents (empty_file \<lparr> contents := [1, 2], position := 1 \<rparr>)))
               (nat (position (empty_file \<lparr> contents := [1, 2], position := 1 \<rparr>) + 3)))"
proof -
  have b: "writeToFile (reading [Read [10] None, Read [] (Some (Errno 104))])
      (empty_file \<lparr> contents := [1, 2], position := 1 \<rparr>) 3 =
     Returns (1, Some (Errno 104), True,
       empty_file \<lparr> contents := [1, 10, 0, 0], position := 1 \<rparr>)"
    by (simp add: writeToFile_def reading_def empty_file_def wrap64_def maxBufferSize_def
          readTurn_def Let_def numeral_2_eq_2)
  have s: "stored_by_reads [Read [10] None, Read [] (Some (Errno 104))] 3 0 = [10]"
    by (simp add: maxBufferSize_def)
  have p: "position (empty_file \<lparr> contents := [1, 2], position := 1 \<rparr>) < 2 ^ 63"
    by (simp add: empty_file_def)
  have r: "(3::int) < 2 ^ 63" by simp
  from writeToFile_extends_and_counts [OF r p b] b s show ?thesis
    by blast
qed

subsection \<open>Claim C6\<close>

lemmas splice_defs =
  spliceToFile_def splicing_def quiet_socket_def empty_file_def spliceIn_def moveToFile_def
  spliceOut_def file_write_def wrap64_def maxSpliceSize_def EAGAIN_def Let_def

text \<open>The file-ward half on its own: whatever short writes the kernel makes, as long
  as no \<open>splice\<close> fails, the closure leaves with the whole chunk written at the offset
  the file had, in order.\<close>

lemma file_write_append:
  assumes "0 \<le> position f"
  shows "file_write (file_write f bs) cs = file_write f (bs @ cs)"
proof -
  define pos where "pos = nat (position f)"
  define old where "old = contents f @ replicate (pos - length (contents f)) 0"
  have l: "pos \<le> length old" by (simp add: old_def)
  have c1: "contents (file_write f bs) = take pos old @ bs @ drop (pos + length bs) old"
    and p1: "position (file_write f bs) = position f + int (length bs)"
    by (simp_all add: file_write_def Let_def pos_def old_def)
  have n1: "nat (position (file_write f bs)) = pos + length bs"
    using assms by (simp add: p1 pos_def nat_add_distrib)
  have l1: "pos + length bs \<le> length (contents (file_write f bs))"
    using l by (simp add: c1)
  have t: "take (pos + length bs) (contents (file_write f bs)) = take pos old @ bs"
    using l by (simp add: c1)
  have d: "drop (pos + length bs + length cs) (contents (file_write f bs)) =
             drop (pos + length bs + length cs) old"
    using l by (simp add: c1 add.commute)
  have "contents (file_write (file_write f bs) cs) =
          (take pos old @ bs) @ cs @ drop (pos + length bs + length cs) old"
    unfolding file_write_def [of "file_write f bs"] Let_def n1
    using l1 by (simp add: t d)
  moreover have "contents (file_write f (bs @ cs)) =
          (take pos old @ bs) @ cs @ drop (pos + length bs + length cs) old"
    by (simp add: file_write_def Let_def pos_def old_def add.assoc)
  moreover have "position (file_write (file_write f bs) cs) = position (file_write f (bs @ cs))"
    by (simp add: file_write_def Let_def)
  moreover have "File.more (file_write (file_write f bs) cs) = File.more (file_write f (bs @ cs))"
    "Seek_err (file_write (file_write f bs) cs) = Seek_err (file_write f (bs @ cs))"
    "Stat_err (file_write (file_write f bs) cs) = Stat_err (file_write f (bs @ cs))"
    "Truncate_err (file_write (file_write f bs) cs) = Truncate_err (file_write f (bs @ cs))"
    "Mmap_err (file_write (file_write f bs) cs) = Mmap_err (file_write f (bs @ cs))"
    "file_SyscallConn_err (file_write (file_write f bs) cs) =
       file_SyscallConn_err (file_write f (bs @ cs))"
    "file_Write_err (file_write (file_write f bs) cs) = file_Write_err (file_write f (bs @ cs))"
    "file_events (file_write (file_write f bs) cs) = file_events (file_write f (bs @ cs))"
    by (simp_all add: file_write_def Let_def)
  ultimately show ?thesis
    by (intro File.equality) simp_all
qed

lemma file_write_fields:
  "position (file_write f bs) = position f + int (length bs)"
  "file_Write_err (file_write f bs) = file_Write_err f"
  "file_events (file_write f bs) = file_events f"
  by (simp_all add: file_write_def Let_def)

lemma bump_moves_chunk:
  "\<forall>ev \<in> set evs. \<exists>k. ev = SpliceOut k \<Longrightarrow> 0 \<le> position f \<Longrightarrow> n = int (length pipe) \<Longrightarrow>
   \<exists>evs'. bump evs pipe n f = (None, file_write f pipe, evs') \<and> set evs' \<subseteq> set evs"
proof (induction evs arbitrary: pipe n f)
  case Nil
  then show ?case by simp
next
  case (Cons ev evs)
  from Cons.prems(1) obtain k where ev: "ev = SpliceOut k" by auto
  define moved where "moved = take (min k (nat n)) pipe"
  have so: "spliceOut ev pipe n f =
              (if int (length moved) < n
               then Inr (drop (length moved) pipe, n - int (length moved), file_write f moved)
               else Inl (None, file_write f moved))"
    by (simp add: spliceOut_def ev Let_def moved_def)
  show ?case
  proof (cases "int (length moved) < n")
    case True
    have rest: "n - int (length moved) = int (length (drop (length moved) pipe))"
      using Cons.prems(3) by (simp add: moved_def)
    have pos: "0 \<le> position (file_write f moved)"
      using Cons.prems(2) by (simp add: file_write_fields)
    from Cons.prems(1) have all: "\<forall>ev \<in> set evs. \<exists>k. ev = SpliceOut k" by simp
    from Cons.IH [OF all pos rest] obtain evs' where
      b: "bump evs (drop (length moved) pipe) (n - int (length moved)) (file_write f moved) =
            (None, file_write (file_write f moved) (drop (length moved) pipe), evs')"
      and sub: "set evs' \<subseteq> set evs"
      by blast
    have "moved @ drop (length moved) pipe = pipe"
      by (simp add: moved_def min_def)
    then have "file_write (file_write f moved) (drop (length moved) pipe) = file_write f pipe"
      by (simp add: file_write_append [OF Cons.prems(2)])
    with b sub True show ?thesis
      by (auto simp add: so)
  next
    case False
    then have "moved = pipe"
      using Cons.prems(3) by (simp add: moved_def min_def split: if_splits)
    with False show ?thesis by (auto simp add: so)
  qed
qed

lemma moveToFile_moves_chunk:
  assumes "steady_file f" and "n = int (length pipe)"
  shows "\<exists>f'. moveToFile f pipe n = (None, f') \<and> steady_file f' \<and>
              contents f' = contents (file_write f pipe) \<and>
              position f' = position f + int (length pipe)"
proof -
  from assms(1) have w: "file_Write_err f = None"
    and all: "\<forall>ev \<in> set (file_events f). \<exists>k. ev = SpliceOut k"
    and pos: "0 \<le> position f"
    by (simp_all add: steady_file_def list_all_iff)
  from bump_moves_chunk [OF all pos assms(2)] obtain evs' where
    b: "bump (file_events f) pipe n f = (None, file_write f pipe, evs')"
    and sub: "set evs' \<subseteq> set (file_events f)"
    by blast
  have "moveToFile f pipe n = (None, (file_write f pipe) \<lparr> file_events := evs' \<rparr>)"
    by (simp add: moveToFile_def w b)
  moreover have "steady_file ((file_write f pipe) \<lparr> file_events := evs' \<rparr>)"
    using w all pos sub
    by (auto simp add: steady_file_def list_all_iff file_write_fields)
  ultimately show ?thesis
    by (auto simp add: file_write_fields)
qed

lemma spliceIn_would_block:
  assumes "remain + 1 < 2 ^ 63" "- (2 ^ 63) \<le> remain"
    and "- (2 ^ 63) \<le> written - 1" "written < 2 ^ 63"
  shows "spliceIn (SpliceInFails EAGAIN) f remain written = Inr (f, remain + 1, written - 1)"
proof -
  have "wrap64 (remain + 1) = remain + 1" "wrap64 (written - 1) = written - 1"
    using assms by (simp_all add: wrap64_id)
  then show ?thesis
    by (simp add: spliceIn_def Let_def)
qed

lemma spliceIn_chunk:
  assumes "steady_file f"
    and "int (length chunk) \<le> maxSpliceSize" "int (length chunk) \<le> remain"
    and "remain < 2 ^ 63" "- (2 ^ 63) \<le> written" "written + int (length chunk) < 2 ^ 63"
  shows "\<exists>f'. spliceIn (SpliceIn chunk) f remain written =
                (if remain - int (length chunk) \<le> 0
                 then Inl (written + int (length chunk), None, f')
                 else Inr (f', remain - int (length chunk), written + int (length chunk))) \<and>
              steady_file f' \<and> contents f' = contents (file_write f chunk) \<and>
              position f' = position f + int (length chunk)"
proof -
  define n0 where "n0 = (if maxSpliceSize > remain then remain else maxSpliceSize)"
  have n0: "int (length chunk) \<le> n0" "n0 < 2 ^ 64"
    using assms(2,3,4) by (auto simp add: n0_def maxSpliceSize_def)
  then have "0 \<le> n0" by simp
  with n0 have m: "n0 mod 2 ^ 64 = n0" by simp
  have pipe: "take (nat (n0 mod 2 ^ 64)) chunk = chunk"
    unfolding m using n0(1) by simp
  have wr: "wrap64 (remain - int (length chunk)) = remain - int (length chunk)"
    "wrap64 (written + int (length chunk)) = written + int (length chunk)"
    using assms(3,4,5,6) by (simp_all add: wrap64_id)
  from moveToFile_moves_chunk [OF assms(1) refl, of chunk] obtain f' where
    mv: "moveToFile f chunk (int (length chunk)) = (None, f')"
    and f': "steady_file f'" "contents f' = contents (file_write f chunk)"
      "position f' = position f + int (length chunk)"
    by blast
  have "spliceIn (SpliceIn chunk) f remain written =
          (if remain - int (length chunk) \<le> 0
           then Inl (written + int (length chunk), None, f')
           else Inr (f', remain - int (length chunk), written + int (length chunk)))"
    unfolding spliceIn_def splice_event.case Let_def n0_def [symmetric] pipe wr mv
    by simp
  with f' show ?thesis by blast
qed

lemma file_write_cong:
  "contents f = contents g \<Longrightarrow> position f = position g \<Longrightarrow>
   contents (file_write f bs) = contents (file_write g bs)"
  by (simp add: file_write_def Let_def)

text \<open>Without interruption the bridge moves the stream: the call returns the
  count \<open>N\<close> and the file has the stream written at its offset.\<close>

lemma spliceLoop_uninterrupted:
  "steady_file f \<Longrightarrow> list_all (\<lambda>chunk. int (length chunk) \<le> maxSpliceSize) cs \<Longrightarrow>
   remain = int (length (concat cs)) \<Longrightarrow> 0 < remain \<Longrightarrow>
   - (2 ^ 63) \<le> written \<Longrightarrow> written + remain < 2 ^ 63 \<Longrightarrow> remain < 2 ^ 63 \<Longrightarrow>
   \<exists>f'. spliceLoop (uninterrupted cs) f remain written = Returns (written + remain, None, f') \<and>
        contents f' = contents (file_write f (concat cs)) \<and>
        position f' = position f + remain"
proof (induction cs arbitrary: f remain written)
  case Nil
  then show ?case by simp
next
  case (Cons chunk cs)
  have le: "int (length chunk) \<le> maxSpliceSize" "int (length chunk) \<le> remain"
    using Cons.prems(2,3) by simp_all
  have wl: "written + int (length chunk) < 2 ^ 63"
    using Cons.prems(6) le(2) by simp
  from spliceIn_chunk [OF Cons.prems(1) le Cons.prems(7,5) wl] obtain f1 where
    si: "spliceIn (SpliceIn chunk) f remain written =
           (if remain - int (length chunk) \<le> 0
            then Inl (written + int (length chunk), None, f1)
            else Inr (f1, remain - int (length chunk), written + int (length chunk)))"
    and f1: "steady_file f1" "contents f1 = contents (file_write f chunk)"
      "position f1 = position f + int (length chunk)"
    by blast
  have pos: "0 \<le> position f"
    using Cons.prems(1) by (simp add: steady_file_def)
  show ?case
  proof (cases "remain - int (length chunk) \<le> 0")
    case True
    with Cons.prems(3) have e: "concat cs = []" and r: "remain = int (length chunk)"
      by simp_all
    have "concat (chunk # cs) = chunk"
      using e by simp
    then have "contents f1 = contents (file_write f (concat (chunk # cs)))"
      using f1(2) by (simp only:)
    with True si f1(3) r show ?thesis
      by (simp add: uninterrupted_def del: concat.simps)
  next
    case False
    have r: "remain - int (length chunk) = int (length (concat cs))"
      using Cons.prems(3) by simp
    from Cons.prems(2) have all: "list_all (\<lambda>chunk. int (length chunk) \<le> maxSpliceSize) cs"
      by simp
    have "\<exists>f'. spliceLoop (uninterrupted cs) f1 (remain - int (length chunk))
                  (written + int (length chunk)) =
                Returns (written + int (length chunk) + (remain - int (length chunk)), None, f') \<and>
               contents f' = contents (file_write f1 (concat cs)) \<and>
               position f' = position f1 + (remain - int (length chunk))"
      using False Cons.prems(5,6,7) by (intro Cons.IH [OF f1(1) all r]) simp_all
    then obtain f' where
      l: "spliceLoop (uninterrupted cs) f1 (remain - int (length chunk))
            (written + int (length chunk)) = Returns (written + remain, None, f')"
      and c: "contents f' = contents (file_write f1 (concat cs))"
      and p: "position f' = position f1 + (remain - int (length chunk))"
      by auto
    have "contents (file_write f1 (concat cs)) =
            contents (file_write (file_write f chunk) (concat cs))"
      by (rule file_write_cong) (simp_all add: f1 file_write_fields)
    then have "contents f' = contents (file_write f (concat (chunk # cs)))"
      by (simp add: c file_write_append [OF pos])
    with False si l p f1(3) show ?thesis
      by (simp add: uninterrupted_def)
  qed
qed

text \<open>With a would-block result before each chunk the bridge never returns: after
  the last byte of the stream \<open>remain\<close> still stands at the number of interruptions.\<close>

lemma spliceLoop_interrupted:
  "steady_file f \<Longrightarrow> list_all (\<lambda>chunk. int (length chunk) \<le> maxSpliceSize) cs \<Longrightarrow>
   int (length (concat cs)) \<le> remain \<Longrightarrow> remain + int (length cs) < 2 ^ 63 \<Longrightarrow>
   - (2 ^ 63) + int (length cs) \<le> written \<Longrightarrow>
   written + int (length (concat cs)) < 2 ^ 63 \<Longrightarrow>
   spliceLoop (interrupted cs) f remain written = Blocks"
proof (induction cs arbitrary: f remain written)
  case Nil
  then show ?case by (simp add: interrupted_def)
next
  case (Cons chunk cs)
  have i: "interrupted (chunk # cs) = SpliceInFails EAGAIN # SpliceIn chunk # interrupted cs"
    by (simp add: interrupted_def)
  have wb: "spliceIn (SpliceInFails EAGAIN) f remain written = Inr (f, remain + 1, written - 1)"
    using Cons.prems(3,4,5,6) by (intro spliceIn_would_block) simp_all
  have le: "int (length chunk) \<le> maxSpliceSize" "int (length chunk) \<le> remain + 1"
    using Cons.prems(2,3) by simp_all
  have "\<exists>f'. spliceIn (SpliceIn chunk) f (remain + 1) (written - 1) =
                (if remain + 1 - int (length chunk) \<le> 0
                 then Inl (written - 1 + int (length chunk), None, f')
                 else Inr (f', remain + 1 - int (length chunk),
                           written - 1 + int (length chunk))) \<and>
              steady_file f' \<and> contents f' = contents (file_write f chunk) \<and>
              position f' = position f + int (length chunk)"
    using Cons.prems(4,5,6) by (intro spliceIn_chunk [OF Cons.prems(1) le]) simp_all
  moreover have "\<not> remain + 1 - int (length chunk) \<le> 0"
    using Cons.prems(3) by simp
  ultimately obtain f1 where
    si: "spliceIn (SpliceIn chunk) f (remain + 1) (written - 1) =
           Inr (f1, remain + 1 - int (length chunk), written - 1 + int (length chunk))"
    and f1: "steady_file f1"
    by auto
  from Cons.prems(2) have all: "list_all (\<lambda>chunk. int (length chunk) \<le> maxSpliceSize) cs"
    by simp
  have "spliceLoop (interrupted cs) f1 (remain + 1 - int (length chunk))
          (written - 1 + int (length chunk)) = Blocks"
    using Cons.prems(3,4,5,6) by (intro Cons.IH [OF f1 all]) simp_all
  then show ?case
    by (simp add: i wb si)
qed

lemma spliceToFile_uninterrupted:
  assumes "steady_file f" "file_SyscallConn_err f = None"
    and "list_all (\<lambda>chunk. int (length chunk) \<le> maxSpliceSize) cs"
    and "remain = int (length (concat cs))" "0 < remain" "remain < 2 ^ 63"
  shows "\<exists>f'. spliceToFile (splicing (uninterrupted cs)) None f remain =
                Returns (remain, None, True, f') \<and>
              contents f' = contents (file_write f (concat cs)) \<and>
              position f' = position f + remain"
proof -
  from spliceLoop_uninterrupted [OF assms(1,3,4,5), of 0] assms(6) obtain f' where
    "spliceLoop (uninterrupted cs) f remain 0 = Returns (remain, None, f')"
    "contents f' = contents (file_write f (concat cs))" "position f' = position f + remain"
    by auto
  then show ?thesis
    using assms(2) by (simp add: spliceToFile_def splicing_def quiet_socket_def)
qed

lemma spliceToFile_interrupted:
  assumes "steady_file f" "file_SyscallConn_err f = None"
    and "list_all (\<lambda>chunk. int (length chunk) \<le> maxSpliceSize) cs"
    and "remain = int (length (concat cs))" "remain + int (length cs) < 2 ^ 63"
  shows "spliceToFile (splicing (interrupted cs)) None f remain = Blocks"
proof -
  have "spliceLoop (interrupted cs) f remain 0 = Blocks"
    using assms(4,5) by (intro spliceLoop_interrupted [OF assms(1,3)]) simp_all
  then show ?thesis
    using assms(2) by (simp add: spliceToFile_def splicing_def quiet_socket_def)
qed

text \<open>
  C6. A stream of \<open>N\<close> bytes moved with \<open>remain = N\<close> is to give the same file and the
  same count \<open>N\<close> whether it arrives in one go or in chunks, each behind a would-block
  result. It does not. The three bytes 1, 2, 3 arriving as the chunks [1] and [2, 3]
  without interruption give the file [1, 2, 3] and the count 3. With \<open>EAGAIN\<close> before
  each chunk, each \<open>EAGAIN\<close> has added 1 to \<open>remain\<close> and taken 1 from \<open>written\<close>, so
  after the three bytes the call does not return: it waits for two more bytes. If the
  socket has more to give, bytes 4 and 5 of what follows land in the file as well, and
  the call returns the count 3 over a file of five bytes.
\<close>

theorem splice_would_block_miscounts:
  "spliceToFile (splicing (uninterrupted [[1], [2, 3]])) None empty_file 3 =
     Returns (3, None, True, empty_file \<lparr> contents := [1, 2, 3], position := 3 \<rparr>)
   \<and> interrupted [[1], [2, 3]] =
     [SpliceInFails EAGAIN, SpliceIn [1], SpliceInFails EAGAIN, SpliceIn [2, 3]]
   \<and> spliceToFile (splicing (interrupted [[1], [2, 3]])) None empty_file 3 = Blocks
   \<and> spliceToFile (splicing (interrupted [[1], [2, 3]] @ [SpliceIn [4, 5, 6]])) None
       empty_file 3 =
     Returns (3, None, True, empty_file \<lparr> contents := [1, 2, 3, 4, 5], position := 5 \<rparr>)"
  by (simp add: splice_defs uninterrupted_def interrupted_def)

end
